theory Spec2Isabelle
  imports Main
begin

section \<open>The order store of \<open>orders_db.py\<close>\<close>

text \<open>
  The class \<open>OrdersDB\<close> keeps orders in an SQLite file with two tables,
  \<open>program_runs\<close> and \<open>orders\<close>. The methods are embedded as functions that take the
  object and return the object together with either the raised exception (\<open>Inl\<close>) or the
  returned value (\<open>Inr\<close>). A method that falls off its end after a handled exception
  returns Python's \<open>None\<close>, which is \<open>None\<close> of an option type here.

  What lies outside the file is fixed by these conventions.
  \<^item> Input records are dictionaries from strings to strings.
  \<^item> A moment is an integer count of milliseconds since 0001-01-01 00:00:00 of the
    wall clock it is read from; a timestamp text \<open>YYYY-MM-DD HH:MM:SS\<close> and a date text
    \<open>YYYY-MM-DD\<close> stand for the moment and the day number they denote. Day 0 is a Monday.
    SQLite's \<open>julianday\<close> difference of two such moments, cast to INTEGER, is their
    difference in whole days, truncated towards zero. (The two \<open>julianday\<close> values are
    doubles on one grid whose spacing is far below a millisecond, so the cast of their
    difference is the cast of the exact difference.)
  \<^item> The clock does not move during one method call. \<open>CURRENT_TIMESTAMP\<close> reads
    the UTC clock in whole seconds, \<open>datetime.today()\<close> and
    \<open>julianday('now', 'localtime')\<close> read the local clock.
  \<^item> A statement fails when SQL says so (missing table, violated constraint), when the
    connection is closed, or when the environment makes it fail (locked file, full disk);
    the environment's choice is the field \<open>fails\<close>.
  \<^item> An integer bound to a statement parameter must fit SQLite's 64-bit INTEGER; binding
    any other Python integer raises \<open>OverflowError\<close> before the statement runs.
  \<^item> The interpreter runs with assertions enabled.
\<close>

subsection \<open>Exceptions, log levels, time\<close>

datatype exn =
  OperationalError | IntegrityError | ProgrammingError | OverflowError | AssertionError
| KeyError | TypeError

datatype level = DEBUG | INFO | ERROR | CRITICAL

type_synonym moment = int

datatype backup_file = BACKUP_DB_BEFORE_NAME | BACKUP_DB_AFTER_NAME

datatype stmt =
  PragmaForeignKeys
| CreateProgramRuns
| CreateOrders
| SelectOrderIds
| InsertRun
| SelectCurrentRun
| InsertOrder string
| DeleteRun int
| SelectOldRuns
| Backup backup_file

record env =
  import_today :: moment
  utc_now :: moment
  tz_offset :: int
  fails :: "stmt \<Rightarrow> exn option"

definition ORDERS_ARCHIVE_DAYS :: int where
  "ORDERS_ARCHIVE_DAYS = 14"

definition day_ms :: int where
  "day_ms = 86400000"

definition local_now :: "env \<Rightarrow> moment" where
  "local_now e = utc_now e + tz_offset e"

definition current_timestamp :: "env \<Rightarrow> moment" where
  "current_timestamp e = (utc_now e div 1000) * 1000"

definition date_of :: "moment \<Rightarrow> int" where
  "date_of t = t div day_ms"

definition datetime_weekday :: "moment \<Rightarrow> int" where
  "datetime_weekday t = date_of t mod 7"

definition cast_integer_days :: "int \<Rightarrow> int" where
  "cast_integer_days ms = (if 0 \<le> ms then ms div day_ms else - ((- ms) div day_ms))"

subsection \<open>The database\<close>

type_synonym order_dict = "string \<rightharpoonup> string"

record run_row =
  run_id :: int
  run_time :: moment
  weekday :: int

record order_row =
  order_id :: string
  purchase_date :: string
  payments_date :: string
  buyer_name :: string
  last_update :: moment
  date_added :: int
  run :: int

record database =
  program_runs :: "run_row list option"
  sqlite_sequence :: int
  orders_tbl :: "order_row list option"

definition empty_database :: database where
  "empty_database = \<lparr>program_runs = None, sqlite_sequence = 0, orders_tbl = None\<rparr>"

record OrdersDB =
  orders :: "order_dict list"
  con :: database
  con_closed :: bool
  logged :: "level list"
  db_backup_b4 :: "database option"
  db_backup_after :: "database option"

type_synonym 'a result = "(exn + 'a) \<times> OrdersDB"

subsection \<open>SQL statements\<close>

definition sql_create_program_runs :: "database \<Rightarrow> exn + database" where
  "sql_create_program_runs d =
     (case program_runs d of
        Some rows \<Rightarrow> Inl OperationalError
      | None \<Rightarrow> Inr (d\<lparr>program_runs := Some []\<rparr>))"

definition sql_create_orders :: "database \<Rightarrow> exn + database" where
  "sql_create_orders d =
     (case orders_tbl d of
        Some rows \<Rightarrow> Inl OperationalError
      | None \<Rightarrow> Inr (d\<lparr>orders_tbl := Some []\<rparr>))"

definition sql_select_order_ids :: "database \<Rightarrow> exn + string list" where
  "sql_select_order_ids d =
     (case orders_tbl d of
        None \<Rightarrow> Inl OperationalError
      | Some rows \<Rightarrow> Inr (map order_id rows))"

definition sql_insert_run :: "moment \<Rightarrow> int \<Rightarrow> database \<Rightarrow> exn + database" where
  "sql_insert_run t wd d =
     (case program_runs d of
        None \<Rightarrow> Inl OperationalError
      | Some rows \<Rightarrow>
          Inr (d\<lparr>program_runs :=
                   Some (rows @ [\<lparr>run_id = sqlite_sequence d + 1, run_time = t, weekday = wd\<rparr>]),
                 sqlite_sequence := sqlite_sequence d + 1\<rparr>))"

text \<open>
  \<open>ORDER BY run_time DESC LIMIT 1\<close>: a row of greatest \<open>run_time\<close>. SQLite leaves the choice
  among rows of equal \<open>run_time\<close> open; here it is the first of them in table order.
\<close>

fun latest_run :: "run_row list \<Rightarrow> run_row option" where
  "latest_run [] = None"
| "latest_run (r # rs) =
     (case latest_run rs of
        None \<Rightarrow> Some r
      | Some m \<Rightarrow> if run_time r < run_time m then Some m else Some r)"

definition sql_select_current_run :: "database \<Rightarrow> exn + run_row option" where
  "sql_select_current_run d =
     (case program_runs d of
        None \<Rightarrow> Inl OperationalError
      | Some rows \<Rightarrow> Inr (latest_run rows))"

text \<open>
  The INSERT into \<open>orders\<close>: \<open>run\<close> is NOT NULL, \<open>order_id\<close> is the primary key, and with
  \<open>PRAGMA foreign_keys = 1\<close> the run must be a row of \<open>program_runs\<close>.
\<close>

definition sql_insert_order ::
  "env \<Rightarrow> string \<Rightarrow> string \<Rightarrow> string \<Rightarrow> string \<Rightarrow> int \<Rightarrow> int option \<Rightarrow> database \<Rightarrow> exn + database"
where
  "sql_insert_order e oid pd pay buyer added rn d =
     (case orders_tbl d of
        None \<Rightarrow> Inl OperationalError
      | Some rows \<Rightarrow>
          (case program_runs d of
             None \<Rightarrow> Inl OperationalError
           | Some runs \<Rightarrow>
               (case rn of
                  None \<Rightarrow> Inl IntegrityError
                | Some r \<Rightarrow>
                    if oid \<in> set (map order_id rows) then Inl IntegrityError
                    else if r \<notin> set (map run_id runs) then Inl IntegrityError
                    else Inr (d\<lparr>orders_tbl := Some (rows @
                           [\<lparr>order_id = oid, purchase_date = pd, payments_date = pay,
                             buyer_name = buyer, last_update = current_timestamp e,
                             date_added = added, run = r\<rparr>])\<rparr>))))"

text \<open>The DELETE of one run; \<open>ON DELETE CASCADE\<close> removes the orders of that run.\<close>

definition sql_delete_run :: "int \<Rightarrow> database \<Rightarrow> exn + database" where
  "sql_delete_run r d =
     (case program_runs d of
        None \<Rightarrow> Inl OperationalError
      | Some runs \<Rightarrow>
          Inr (d\<lparr>program_runs := Some (filter (\<lambda>x. run_id x \<noteq> r) runs),
                 orders_tbl := map_option (filter (\<lambda>x. run x \<noteq> r)) (orders_tbl d)\<rparr>))"

definition age_days :: "env \<Rightarrow> run_row \<Rightarrow> int" where
  "age_days e r = cast_integer_days (local_now e - run_time r)"

definition sql_select_old_runs :: "env \<Rightarrow> int \<Rightarrow> database \<Rightarrow> exn + int list" where
  "sql_select_old_runs e archive_days d =
     (case program_runs d of
        None \<Rightarrow> Inl OperationalError
      | Some runs \<Rightarrow> Inr (map run_id (filter (\<lambda>r. archive_days < age_days e r) runs)))"

subsection \<open>Connection, transactions, handlers\<close>

definition logging :: "level \<Rightarrow> OrdersDB \<Rightarrow> OrdersDB" where
  "logging lv s = s\<lparr>logged := logged s @ [lv]\<rparr>"

definition sqlite_int :: "int \<Rightarrow> bool" where
  "sqlite_int n = (- (2 ^ 63) \<le> n \<and> n < 2 ^ 63)"

definition execute ::
  "env \<Rightarrow> stmt \<Rightarrow> int list \<Rightarrow> (database \<Rightarrow> exn + database) \<Rightarrow> OrdersDB \<Rightarrow> unit result"
where
  "execute e st params f s =
     (if con_closed s then (Inl ProgrammingError, s)
      else if \<not> list_all sqlite_int params then (Inl OverflowError, s)
      else case fails e st of
             Some x \<Rightarrow> (Inl x, s)
           | None \<Rightarrow> (case f (con s) of
                        Inl x \<Rightarrow> (Inl x, s)
                      | Inr d \<Rightarrow> (Inr (), s\<lparr>con := d\<rparr>)))"

definition fetch ::
  "env \<Rightarrow> stmt \<Rightarrow> int list \<Rightarrow> (database \<Rightarrow> exn + 'a) \<Rightarrow> OrdersDB \<Rightarrow> exn + 'a"
where
  "fetch e st params f s =
     (if con_closed s then Inl ProgrammingError
      else if \<not> list_all sqlite_int params then Inl OverflowError
      else case fails e st of
             Some x \<Rightarrow> Inl x
           | None \<Rightarrow> f (con s))"

text \<open>\<open>with self.con:\<close> commits when the body returns and rolls back when it raises.\<close>

definition with_con :: "(OrdersDB \<Rightarrow> 'a result) \<Rightarrow> OrdersDB \<Rightarrow> 'a result" where
  "with_con body s =
     (case body s of
        (Inl x, s') \<Rightarrow> (Inl x, s'\<lparr>con := con s\<rparr>)
      | (Inr v, s') \<Rightarrow> (Inr v, s'))"

text \<open>
  \<open>try: ... except ...: logging.<level>(...)\<close>: the handler gives the level logged for an
  exception it catches; the method then returns \<open>None\<close>.
\<close>

definition try_except ::
  "(exn \<Rightarrow> level option) \<Rightarrow> (OrdersDB \<Rightarrow> 'a result) \<Rightarrow> OrdersDB \<Rightarrow> 'a option result"
where
  "try_except handler body s =
     (case body s of
        (Inr v, s') \<Rightarrow> (Inr (Some v), s')
      | (Inl x, s') \<Rightarrow>
          (case handler x of
             Some lv \<Rightarrow> (Inr None, logging lv s')
           | None \<Rightarrow> (Inl x, s')))"

definition then_do :: "'a result \<Rightarrow> ('a \<Rightarrow> OrdersDB \<Rightarrow> 'b result) \<Rightarrow> 'b result" where
  "then_do m f = (case m of (Inl x, s) \<Rightarrow> (Inl x, s) | (Inr v, s) \<Rightarrow> f v s)"

definition except_operational :: "level \<Rightarrow> exn \<Rightarrow> level option" where
  "except_operational lv x = (if x = OperationalError then Some lv else None)"

subsection \<open>The methods\<close>

definition create_schema :: "env \<Rightarrow> OrdersDB \<Rightarrow> unit result" where
  "create_schema e s0 =
     then_do (try_except (except_operational DEBUG)
                (with_con (execute e CreateProgramRuns [] sql_create_program_runs)) s0)
       (\<lambda>_ s1.
          then_do (try_except (except_operational DEBUG)
                     (with_con (execute e CreateOrders [] sql_create_orders)) s1)
            (\<lambda>_ s2. (Inr (), logging DEBUG s2)))"

record files =
  db_file :: database
  b4_file :: "database option"
  after_file :: "database option"

definition OrdersDB_init :: "env \<Rightarrow> files \<Rightarrow> order_dict list \<Rightarrow> unit result" where
  "OrdersDB_init e fs ords =
     then_do (execute e PragmaForeignKeys [] Inr
                \<lparr>orders = ords, con = db_file fs, con_closed = False, logged = [],
                 db_backup_b4 = b4_file fs, db_backup_after = after_file fs\<rparr>)
       (\<lambda>_. create_schema e)"

definition get_order_ids_in_db :: "env \<Rightarrow> OrdersDB \<Rightarrow> string list option result" where
  "get_order_ids_in_db e =
     try_except (except_operational CRITICAL)
       (with_con (\<lambda>s. case fetch e SelectOrderIds [] sql_select_order_ids s of
                         Inl x \<Rightarrow> (Inl x, s)
                       | Inr order_id_lst_in_db \<Rightarrow> (Inr order_id_lst_in_db, logging DEBUG s)))"

text \<open>
  The default of \<open>date_arg\<close> is the value \<open>datetime.today()\<close> had when the \<open>def\<close> statement
  ran, that is when the module was imported.
\<close>

definition get_today_weekday_int :: "env \<Rightarrow> moment option \<Rightarrow> int" where
  "get_today_weekday_int e date_arg =
     datetime_weekday (case date_arg of None \<Rightarrow> import_today e | Some d \<Rightarrow> d) + 1"

text \<open>\<open>run_time_default\<close>: \<open>None\<close> stands for \<open>True\<close>, \<open>Some t\<close> for a timestamp text.\<close>

definition insert_new_run :: "env \<Rightarrow> int \<Rightarrow> moment option \<Rightarrow> OrdersDB \<Rightarrow> unit result" where
  "insert_new_run e wd run_time_default s =
     then_do (try_except (\<lambda>x. Some CRITICAL)
                (with_con (\<lambda>s. then_do
                    (execute e InsertRun [wd]
                       (sql_insert_run (case run_time_default of
                                          None \<Rightarrow> current_timestamp e
                                        | Some t \<Rightarrow> t) wd) s)
                    (\<lambda>_ s'. (Inr (), logging DEBUG s')))) s)
       (\<lambda>_ s'. (Inr (), s'))"

definition get_current_run_id :: "env \<Rightarrow> OrdersDB \<Rightarrow> int option result" where
  "get_current_run_id e =
     try_except (except_operational ERROR)
       (with_con (\<lambda>s. case fetch e SelectCurrentRun [] sql_select_current_run s of
                         Inl x \<Rightarrow> (Inl x, s)
                       | Inr None \<Rightarrow> (Inl TypeError, s)
                       | Inr (Some r) \<Rightarrow>
                           if date_of (run_time r) = date_of (local_now e)
                           then (Inr (run_id r), logging DEBUG s)
                           else (Inl AssertionError, s)))"

definition insert_new_order ::
  "env \<Rightarrow> string \<Rightarrow> string \<Rightarrow> string \<Rightarrow> string \<Rightarrow> int \<Rightarrow> int option \<Rightarrow> OrdersDB \<Rightarrow> unit result"
where
  "insert_new_order e oid pd pay buyer added rn s =
     then_do (try_except (\<lambda>x. if x = OperationalError then Some ERROR else Some ERROR)
                (\<lambda>s. then_do
                    (with_con (execute e (InsertOrder oid)
                                 (case rn of None \<Rightarrow> [] | Some r \<Rightarrow> [r])
                                 (sql_insert_order e oid pd pay buyer added rn)) s)
                    (\<lambda>_ s'. (Inr (), logging DEBUG s'))) s)
       (\<lambda>_ s'. (Inr (), s'))"

fun insert_each :: "env \<Rightarrow> int \<Rightarrow> order_dict list \<Rightarrow> int option \<Rightarrow> OrdersDB \<Rightarrow> unit result" where
  "insert_each e added [] rn s = (Inr (), s)"
| "insert_each e added (order_dict # rest) rn s =
     (case order_dict ''order-id'' of
        None \<Rightarrow> (Inl KeyError, s)
      | Some oid \<Rightarrow>
     (case order_dict ''purchase-date'' of
        None \<Rightarrow> (Inl KeyError, s)
      | Some pd \<Rightarrow>
     (case order_dict ''payments-date'' of
        None \<Rightarrow> (Inl KeyError, s)
      | Some pay \<Rightarrow>
     (case order_dict ''buyer-name'' of
        None \<Rightarrow> (Inl KeyError, s)
      | Some buyer \<Rightarrow>
          then_do (insert_new_order e oid pd pay buyer added rn s)
            (\<lambda>_ s'. insert_each e added rest rn (logging DEBUG s'))))))"

definition insert_multiple_orders ::
  "env \<Rightarrow> order_dict list \<Rightarrow> int option \<Rightarrow> OrdersDB \<Rightarrow> unit result"
where
  "insert_multiple_orders e ords rn s =
     then_do (insert_each e (date_of (local_now e)) ords rn s)
       (\<lambda>_ s'. (Inr (), logging INFO s'))"

definition get_old_runs_ids :: "env \<Rightarrow> int \<Rightarrow> OrdersDB \<Rightarrow> int list option result" where
  "get_old_runs_ids e archive_days =
     try_except (except_operational ERROR)
       (\<lambda>s. then_do
           (with_con (\<lambda>s. case fetch e SelectOldRuns [archive_days] (sql_select_old_runs e archive_days) s of
                             Inl x \<Rightarrow> (Inl x, s)
                           | Inr old_run_ids \<Rightarrow> (Inr old_run_ids, s)) s)
           (\<lambda>old_run_ids s'. (Inr old_run_ids, logging DEBUG s')))"

fun delete_each :: "env \<Rightarrow> int list \<Rightarrow> OrdersDB \<Rightarrow> unit result" where
  "delete_each e [] s = (Inr (), s)"
| "delete_each e (r # rest) s =
     then_do (execute e (DeleteRun r) [r] (sql_delete_run r) s) (\<lambda>_. delete_each e rest)"

definition flush_old_orders :: "env \<Rightarrow> int \<Rightarrow> OrdersDB \<Rightarrow> unit result" where
  "flush_old_orders e archive_days s =
     then_do (get_old_runs_ids e archive_days s)
       (\<lambda>del_run_ids s1.
          then_do (try_except (\<lambda>x. if x = OperationalError then Some ERROR else Some ERROR)
                     (\<lambda>s. then_do
                         (with_con (\<lambda>s. case del_run_ids of
                                           None \<Rightarrow> (Inl TypeError, s)
                                         | Some ids \<Rightarrow> delete_each e ids s) s)
                         (\<lambda>_ s'. (Inr (), logging INFO s'))) s1)
            (\<lambda>_ s2. (Inr (), s2)))"

definition write_backup :: "backup_file \<Rightarrow> OrdersDB \<Rightarrow> OrdersDB" where
  "write_backup p s =
     (case p of
        BACKUP_DB_BEFORE_NAME \<Rightarrow> s\<lparr>db_backup_b4 := Some (con s)\<rparr>
      | BACKUP_DB_AFTER_NAME \<Rightarrow> s\<lparr>db_backup_after := Some (con s)\<rparr>)"

definition backup_db :: "env \<Rightarrow> backup_file \<Rightarrow> OrdersDB \<Rightarrow> unit result" where
  "backup_db e p s =
     (if con_closed s then (Inl ProgrammingError, s)
      else case fails e (Backup p) of
             Some x \<Rightarrow> (Inl x, s)
           | None \<Rightarrow> (Inr (), logging INFO (write_backup p s)))"

definition con_close :: "OrdersDB \<Rightarrow> OrdersDB" where
  "con_close s = s\<lparr>con_closed := True\<rparr>"

text \<open>
  The comprehension of \<open>get_new_orders_only\<close>: \<open>order_data['order-id']\<close> raises KeyError on
  a record without the key, and \<open>not in None\<close> raises TypeError.
\<close>

fun new_orders_of :: "order_dict list \<Rightarrow> string list option \<Rightarrow> exn + order_dict list" where
  "new_orders_of [] orders_in_db = Inr []"
| "new_orders_of (order_data # rest) orders_in_db =
     (case order_data ''order-id'' of
        None \<Rightarrow> Inl KeyError
      | Some oid \<Rightarrow>
          (case orders_in_db of
             None \<Rightarrow> Inl TypeError
           | Some ids \<Rightarrow>
               (case new_orders_of rest orders_in_db of
                  Inl x \<Rightarrow> Inl x
                | Inr new_orders \<Rightarrow>
                    Inr (if oid \<in> set ids then new_orders else order_data # new_orders))))"

definition get_new_orders_only :: "env \<Rightarrow> OrdersDB \<Rightarrow> order_dict list result" where
  "get_new_orders_only e s0 =
     then_do (get_order_ids_in_db e s0)
       (\<lambda>orders_in_db s1.
          case new_orders_of (orders s1) orders_in_db of
            Inl x \<Rightarrow> (Inl x, s1)
          | Inr new_orders \<Rightarrow>
              (case orders_in_db of
                 None \<Rightarrow> (Inl TypeError, logging INFO s1)
               | Some ids \<Rightarrow> (Inr new_orders, con_close (logging DEBUG (logging INFO s1)))))"

definition add_orders_to_db :: "env \<Rightarrow> OrdersDB \<Rightarrow> unit result" where
  "add_orders_to_db e s0 =
     then_do (backup_db e BACKUP_DB_BEFORE_NAME s0) (\<lambda>_ s1.
     then_do (insert_new_run e (get_today_weekday_int e None) None s1) (\<lambda>_ s2.
     then_do (get_current_run_id e s2) (\<lambda>new_run_id s3.
     then_do (insert_multiple_orders e (orders s3) new_run_id s3) (\<lambda>_ s4.
     then_do (flush_old_orders e ORDERS_ARCHIVE_DAYS s4) (\<lambda>_ s5.
     then_do (backup_db e BACKUP_DB_AFTER_NAME s5) (\<lambda>_ s6.
       (Inr (), con_close s6)))))))"

subsection \<open>What a store holds\<close>

definition stored_ids :: "database \<Rightarrow> string list" where
  "stored_ids d = (case orders_tbl d of None \<Rightarrow> [] | Some rows \<Rightarrow> map order_id rows)"

definition unique_order_ids :: "database \<Rightarrow> bool" where
  "unique_order_ids d = distinct (stored_ids d)"

subsection \<open>Concrete environments, stores and records\<close>

text \<open>
  Day 738885 is Monday 2024-01-01. In \<open>env_jan01\<close> it is 10:00 on that day, local time is
  UTC, the module was imported at the same moment and no statement fails.
\<close>

definition no_failure :: "stmt \<Rightarrow> exn option" where
  "no_failure st = None"

definition env_jan01 :: env where
  "env_jan01 = \<lparr>import_today = 738885 * 86400000 + 36000000,
                utc_now = 738885 * 86400000 + 36000000, tz_offset = 0, fails = no_failure\<rparr>"

definition order_A1 :: order_dict where
  "order_A1 = [''order-id'' \<mapsto> ''A1'', ''purchase-date'' \<mapsto> ''2024-01-01'',
               ''payments-date'' \<mapsto> ''2024-01-02'', ''buyer-name'' \<mapsto> ''Bob'']"

definition order_A2 :: order_dict where
  "order_A2 = [''order-id'' \<mapsto> ''A2'', ''purchase-date'' \<mapsto> ''2024-01-01'',
               ''payments-date'' \<mapsto> ''2024-01-02'', ''buyer-name'' \<mapsto> ''Eve'']"

definition order_A2_again :: order_dict where
  "order_A2_again = [''order-id'' \<mapsto> ''A2'', ''purchase-date'' \<mapsto> ''2024-01-01'',
               ''payments-date'' \<mapsto> ''2024-01-03'', ''buyer-name'' \<mapsto> ''Eve'']"

text \<open>A store with one run, opened at 09:00 on 2024-01-01, and order A1 under it.\<close>

definition row_A1 :: order_row where
  "row_A1 = \<lparr>order_id = ''A1'', purchase_date = ''2024-01-01'', payments_date = ''2024-01-02'',
             buyer_name = ''Bob'', last_update = 738885 * 86400000 + 32400000,
             date_added = 738885, run = 1\<rparr>"

definition run_1 :: run_row where
  "run_1 = \<lparr>run_id = 1, run_time = 738885 * 86400000 + 32400000, weekday = 1\<rparr>"

definition store_A1 :: database where
  "store_A1 = \<lparr>program_runs = Some [run_1], sqlite_sequence = 1, orders_tbl = Some [row_A1]\<rparr>"

definition files_A1 :: files where
  "files_A1 = \<lparr>db_file = store_A1, b4_file = None, after_file = None\<rparr>"

text \<open>
  A store of six runs, aged 30 days, 20 days, 15 days, 14 days and 23 hours, 14 days and
  5 days at 10:00 on 2024-01-01, and the object built over it with an empty batch.
\<close>

definition run_aged_30 :: run_row where
  "run_aged_30 = \<lparr>run_id = 1, run_time = 738855 * 86400000 + 36000000, weekday = 6\<rparr>"

definition run_aged_20 :: run_row where
  "run_aged_20 = \<lparr>run_id = 2, run_time = 738865 * 86400000 + 36000000, weekday = 2\<rparr>"

definition run_aged_15 :: run_row where
  "run_aged_15 = \<lparr>run_id = 3, run_time = 738870 * 86400000 + 36000000, weekday = 7\<rparr>"

definition run_aged_14_23h :: run_row where
  "run_aged_14_23h = \<lparr>run_id = 4, run_time = 738870 * 86400000 + 39600000, weekday = 7\<rparr>"

definition run_aged_14 :: run_row where
  "run_aged_14 = \<lparr>run_id = 5, run_time = 738871 * 86400000 + 36000000, weekday = 1\<rparr>"

definition run_aged_5 :: run_row where
  "run_aged_5 = \<lparr>run_id = 6, run_time = 738880 * 86400000 + 36000000, weekday = 3\<rparr>"

definition store_aged :: database where
  "store_aged = \<lparr>program_runs = Some [run_aged_30, run_aged_20, run_aged_15, run_aged_14_23h,
                                     run_aged_14, run_aged_5],
                 sqlite_sequence = 6, orders_tbl = Some []\<rparr>"

definition files_aged :: files where
  "files_aged = \<lparr>db_file = store_aged, b4_file = None, after_file = None\<rparr>"

definition instance_aged :: OrdersDB where
  "instance_aged = \<lparr>orders = [], con = store_aged, con_closed = False,
                    logged = [DEBUG, DEBUG, DEBUG], db_backup_b4 = None, db_backup_after = None\<rparr>"

text \<open>The environment of \<open>env_jan01\<close> with a failing DELETE of run 2.\<close>

definition env_delete_2_fails :: env where
  "env_delete_2_fails = env_jan01\<lparr>fails := no_failure(DeleteRun 2 := Some OperationalError)\<rparr>"

text \<open>
  23:30 UTC on 2024-01-01 with a local clock one hour ahead (00:30 on Tuesday 2024-01-02),
  and the object built over a new, empty store file with the batch \<open>[order_A1]\<close>; then the
  same object after the first backup and the insertion of the run.
\<close>

definition env_late_evening :: env where
  "env_late_evening = \<lparr>import_today = 738886 * 86400000 + 1800000,
                       utc_now = 738885 * 86400000 + 84600000, tz_offset = 3600000,
                       fails = no_failure\<rparr>"

definition files_new :: files where
  "files_new = \<lparr>db_file = empty_database, b4_file = None, after_file = None\<rparr>"

definition instance_new :: OrdersDB where
  "instance_new = \<lparr>orders = [order_A1],
                   con = \<lparr>program_runs = Some [], sqlite_sequence = 0, orders_tbl = Some []\<rparr>,
                   con_closed = False, logged = [DEBUG],
                   db_backup_b4 = None, db_backup_after = None\<rparr>"

definition instance_new_run_opened :: OrdersDB where
  "instance_new_run_opened =
     instance_new\<lparr>con := \<lparr>program_runs = Some [\<lparr>run_id = 1,
                                 run_time = 738885 * 86400000 + 84600000, weekday = 2\<rparr>],
                             sqlite_sequence = 1, orders_tbl = Some []\<rparr>,
                   logged := [DEBUG, INFO, DEBUG],
                   db_backup_b4 := Some \<lparr>program_runs = Some [], sqlite_sequence = 0,
                                          orders_tbl = Some []\<rparr>\<rparr>"

text \<open>
  The environment of \<open>env_jan01\<close> with a failing INSERT into \<open>program_runs\<close>, the object
  built over \<open>store_A1\<close> with the batch \<open>[order_A2]\<close>, and the row that order A2 becomes
  under run 1.
\<close>

definition env_run_insert_fails :: env where
  "env_run_insert_fails = env_jan01\<lparr>fails := no_failure(InsertRun := Some OperationalError)\<rparr>"

definition instance_A1 :: OrdersDB where
  "instance_A1 = \<lparr>orders = [order_A2], con = store_A1, con_closed = False,
                  logged = [DEBUG, DEBUG, DEBUG], db_backup_b4 = None, db_backup_after = None\<rparr>"

definition row_A2 :: order_row where
  "row_A2 = \<lparr>order_id = ''A2'', purchase_date = ''2024-01-01'', payments_date = ''2024-01-02'',
             buyer_name = ''Eve'', last_update = 738885 * 86400000 + 36000000,
             date_added = 738885, run = 1\<rparr>"

text \<open>
  A clock five hours behind UTC. On Monday 2024-01-01 at 20:00 local time, which is Tuesday
  01:00 UTC, run 1 is opened on a new store; \<open>store_west\<close> is the store this leaves and
  \<open>instance_west\<close> the object built over it with the batch \<open>[order_A1]\<close>. The later moments
  are Tuesday 2024-01-02 20:00 local time (Wednesday 01:00 UTC), with and without a failing
  INSERT into \<open>program_runs\<close>, and Tuesday 2024-01-16 20:00 local time (Wednesday 01:00 UTC),
  exactly 15 days after the run was opened. \<open>row_A1_west\<close> is the row that order A1 becomes
  under run 1 on 2024-01-02.
\<close>

definition env_west_monday :: env where
  "env_west_monday = \<lparr>import_today = 738885 * 86400000 + 72000000,
                      utc_now = 738886 * 86400000 + 3600000, tz_offset = - 18000000,
                      fails = no_failure\<rparr>"

definition run_west :: run_row where
  "run_west = \<lparr>run_id = 1, run_time = 738886 * 86400000 + 3600000, weekday = 1\<rparr>"

definition store_west :: database where
  "store_west = \<lparr>program_runs = Some [run_west], sqlite_sequence = 1, orders_tbl = Some []\<rparr>"

definition instance_west :: OrdersDB where
  "instance_west = \<lparr>orders = [order_A1], con = store_west, con_closed = False,
                    logged = [DEBUG, DEBUG, DEBUG], db_backup_b4 = None, db_backup_after = None\<rparr>"

definition env_west_tuesday :: env where
  "env_west_tuesday = \<lparr>import_today = 738886 * 86400000 + 72000000,
                       utc_now = 738887 * 86400000 + 3600000, tz_offset = - 18000000,
                       fails = no_failure\<rparr>"

definition env_west_tuesday_run_fails :: env where
  "env_west_tuesday_run_fails =
     env_west_tuesday\<lparr>fails := no_failure(InsertRun := Some OperationalError)\<rparr>"

definition row_A1_west :: order_row where
  "row_A1_west = \<lparr>order_id = ''A1'', purchase_date = ''2024-01-01'',
                  payments_date = ''2024-01-02'', buyer_name = ''Bob'',
                  last_update = 738887 * 86400000 + 3600000, date_added = 738886, run = 1\<rparr>"




section \<open>Basic facts\<close>

lemma logging_simps:
  "con (logging lv s) = con s" "con_closed (logging lv s) = con_closed s"
  "orders (logging lv s) = orders s" "logged (logging lv s) = logged s @ [lv]"
  by (simp_all add: logging_def)


subsection \<open>The connection stays as open or closed as it was\<close>

lemma execute_closed: "con_closed (snd (execute e st params f s)) = con_closed s"
  by (simp add: execute_def split: option.splits sum.splits)

lemma with_con_closed:
  assumes "\<And>s. con_closed (snd (body s)) = con_closed s"
  shows "con_closed (snd (with_con body s)) = con_closed s"
proof (cases "body s")
  case (Pair r s')
  have "con_closed s' = con_closed s" using assms[of s] Pair by simp
  then show ?thesis using Pair by (simp add: with_con_def split: sum.splits)
qed

lemma try_except_closed:
  assumes "\<And>s. con_closed (snd (body s)) = con_closed s"
  shows "con_closed (snd (try_except h body s)) = con_closed s"
proof (cases "body s")
  case (Pair r s')
  have "con_closed s' = con_closed s" using assms[of s] Pair by simp
  then show ?thesis using Pair
    by (simp add: try_except_def logging_def split: sum.splits option.splits)
qed

lemma then_do_closed:
  "con_closed (snd m) = c \<Longrightarrow> (\<And>v s. con_closed (snd (f v s)) = con_closed s) \<Longrightarrow>
   con_closed (snd (then_do m f)) = c"
  by (cases m) (auto simp: then_do_def split: sum.splits)

lemma backup_db_closed: "con_closed (snd (backup_db e p s)) = con_closed s"
  by (simp add: backup_db_def write_backup_def logging_def split: option.splits backup_file.splits)

lemma insert_new_run_closed: "con_closed (snd (insert_new_run e wd rt s)) = con_closed s"
  unfolding insert_new_run_def
  by (intro then_do_closed try_except_closed with_con_closed execute_closed)
     (simp_all add: logging_def)

lemma get_current_run_id_closed: "con_closed (snd (get_current_run_id e s)) = con_closed s"
  unfolding get_current_run_id_def
  by (intro try_except_closed with_con_closed)
     (simp add: logging_def split: sum.splits option.splits)

lemma insert_new_order_closed:
  "con_closed (snd (insert_new_order e oid pd pay buyer added rn s)) = con_closed s"
  unfolding insert_new_order_def
  by (intro then_do_closed try_except_closed with_con_closed execute_closed)
     (simp_all add: logging_def)

lemma insert_each_closed: "con_closed (snd (insert_each e added ords rn s)) = con_closed s"
proof (induction ords arbitrary: s)
  case Nil
  then show ?case by simp
next
  case (Cons a ords)
  have "con_closed (snd (then_do (insert_new_order e oid pd pay buyer added rn s)
            (\<lambda>_ s'. insert_each e added ords rn (logging DEBUG s')))) = con_closed s"
    for oid pd pay buyer
    by (rule then_do_closed[OF insert_new_order_closed]) (simp add: Cons.IH logging_def)
  then show ?case by (simp split: option.splits)
qed

lemma insert_multiple_orders_closed:
  "con_closed (snd (insert_multiple_orders e ords rn s)) = con_closed s"
  unfolding insert_multiple_orders_def
  by (rule then_do_closed[OF insert_each_closed]) (simp add: logging_def)

lemma get_old_runs_ids_closed: "con_closed (snd (get_old_runs_ids e n s)) = con_closed s"
  unfolding get_old_runs_ids_def
  by (intro try_except_closed then_do_closed with_con_closed)
     (simp_all add: logging_def split: sum.splits)

lemma delete_each_closed: "con_closed (snd (delete_each e ids s)) = con_closed s"
proof (induction ids arbitrary: s)
  case Nil
  then show ?case by simp
next
  case (Cons a ids)
  show ?case unfolding delete_each.simps
    by (rule then_do_closed[OF execute_closed]) (rule Cons.IH)
qed

lemma flush_old_orders_closed: "con_closed (snd (flush_old_orders e n s)) = con_closed s"
  unfolding flush_old_orders_def
proof (rule then_do_closed[OF get_old_runs_ids_closed])
  fix v s
  show "con_closed (snd (then_do (try_except (\<lambda>x. if x = OperationalError then Some ERROR else Some ERROR)
                     (\<lambda>s. then_do
                         (with_con (\<lambda>s. case v of
                                           None \<Rightarrow> (Inl TypeError, s)
                                         | Some ids \<Rightarrow> delete_each e ids s) s)
                         (\<lambda>_ s'. (Inr (), logging INFO s'))) s)
            (\<lambda>_ s2. (Inr (), s2)))) = con_closed s"
    by (intro then_do_closed try_except_closed with_con_closed)
       (simp_all add: logging_def delete_each_closed split: option.splits)
qed

subsection \<open>Methods that only read the store\<close>

lemma backup_db_con: "con (snd (backup_db e p s)) = con s"
  by (simp add: backup_db_def write_backup_def logging_def split: option.splits backup_file.splits)

lemma get_current_run_id_con: "con (snd (get_current_run_id e s)) = con s"
  by (simp add: get_current_run_id_def try_except_def with_con_def logging_def
      split: sum.splits option.splits)

lemma get_order_ids_in_db_con: "con (snd (get_order_ids_in_db e s)) = con s"
  by (simp add: get_order_ids_in_db_def try_except_def with_con_def logging_def
      split: sum.splits option.splits)

lemma get_old_runs_ids_con: "con (snd (get_old_runs_ids e n s)) = con s"
  by (simp add: get_old_runs_ids_def try_except_def with_con_def then_do_def logging_def
      split: sum.splits option.splits)

lemma get_new_orders_only_con: "con (snd (get_new_orders_only e s)) = con s"
proof (cases "get_order_ids_in_db e s")
  case (Pair r s1)
  have "con s1 = con s" using get_order_ids_in_db_con[of e s] Pair by simp
  then show ?thesis using Pair
    by (simp add: get_new_orders_only_def then_do_def logging_def con_close_def
        split: sum.splits option.splits)
qed

subsection \<open>Invariants through the combinators\<close>

lemma then_do_inv:
  "I (snd m) \<Longrightarrow> (\<And>v s. I s \<Longrightarrow> I (snd (f v s))) \<Longrightarrow> I (snd (then_do m f))"
  by (cases m) (auto simp: then_do_def split: sum.splits)

lemma try_except_con:
  assumes "\<And>s. I (con s) \<Longrightarrow> I (con (snd (body s)))" "I (con s)"
  shows "I (con (snd (try_except h body s)))"
proof (cases "body s")
  case (Pair r s')
  have "I (con s')" using assms(1)[OF assms(2)] Pair by simp
  then show ?thesis using Pair
    by (simp add: try_except_def logging_def split: sum.splits option.splits)
qed

lemma with_con_con:
  assumes "\<And>s. I (con s) \<Longrightarrow> I (con (snd (body s)))" "I (con s)"
  shows "I (con (snd (with_con body s)))"
proof (cases "body s")
  case (Pair r s')
  have "I (con s')" using assms(1)[OF assms(2)] Pair by simp
  then show ?thesis using Pair assms(2)
    by (simp add: with_con_def split: sum.splits)
qed

section \<open>Schema manager\<close>

lemma create_schema_no_faults:
  assumes "fails e CreateProgramRuns = None" "fails e CreateOrders = None" "\<not> con_closed s"
  shows "fst (create_schema e s) = Inr ()"
    and "orders_tbl (con (snd (create_schema e s))) =
           Some (case orders_tbl (con s) of None \<Rightarrow> [] | Some rows \<Rightarrow> rows)"
    and "program_runs (con (snd (create_schema e s))) =
           Some (case program_runs (con s) of None \<Rightarrow> [] | Some rows \<Rightarrow> rows)"
    and "\<not> con_closed (snd (create_schema e s))"
    and "orders (snd (create_schema e s)) = orders s"
  using assms
  by (auto simp: create_schema_def then_do_def try_except_def with_con_def execute_def
      sql_create_program_runs_def sql_create_orders_def except_operational_def logging_def
      split: option.splits)

lemma create_schema_already_exists:
  assumes "\<not> con_closed s"
    "fails e CreateProgramRuns = None \<or> fails e CreateProgramRuns = Some OperationalError"
    "fails e CreateOrders = None \<or> fails e CreateOrders = Some OperationalError"
    "program_runs (con s) = Some runs" "orders_tbl (con s) = Some rows"
  shows "create_schema e s = (Inr (), logging DEBUG (logging DEBUG (logging DEBUG s)))"
proof -
  have 1: "with_con (execute e CreateProgramRuns [] sql_create_program_runs) s = (Inl OperationalError, s)"
    using assms(1,2,4) by (auto simp: with_con_def execute_def sql_create_program_runs_def)
  let ?s1 = "logging DEBUG s"
  have 2: "with_con (execute e CreateOrders [] sql_create_orders) ?s1 = (Inl OperationalError, ?s1)"
    using assms(1,3,5) by (auto simp: with_con_def execute_def sql_create_orders_def logging_def)
  show ?thesis
    by (simp add: create_schema_def then_do_def try_except_def 1 2 except_operational_def)
qed

lemma create_schema_returns:
  assumes "\<not> con_closed s"
    "fails e CreateProgramRuns = None \<or> fails e CreateProgramRuns = Some OperationalError"
    "fails e CreateOrders = None \<or> fails e CreateOrders = Some OperationalError"
  shows "fst (create_schema e s) = Inr ()"
  using assms
  by (auto simp: create_schema_def then_do_def try_except_def with_con_def execute_def
      sql_create_program_runs_def sql_create_orders_def except_operational_def logging_def
      split: option.splits)

lemma create_schema_twice:
  assumes "\<not> con_closed s"
    "fails e CreateProgramRuns = None \<or> fails e CreateProgramRuns = Some OperationalError"
    "fails e CreateOrders = None \<or> fails e CreateOrders = Some OperationalError"
  shows "con (snd (create_schema e (snd (create_schema e s)))) = con (snd (create_schema e s))"
  using assms
  by (auto simp: create_schema_def then_do_def try_except_def with_con_def execute_def
      sql_create_program_runs_def sql_create_orders_def except_operational_def logging_def
      split: option.splits)

lemma OrdersDB_init_existing:
  assumes "fails e PragmaForeignKeys = None"
    "fails e CreateProgramRuns = None \<or> fails e CreateProgramRuns = Some OperationalError"
    "fails e CreateOrders = None \<or> fails e CreateOrders = Some OperationalError"
    "program_runs (db_file fs) = Some runs" "orders_tbl (db_file fs) = Some rows"
  shows "OrdersDB_init e fs ords =
     (Inr (), \<lparr>orders = ords, con = db_file fs, con_closed = False,
               logged = [DEBUG, DEBUG, DEBUG],
               db_backup_b4 = b4_file fs, db_backup_after = after_file fs\<rparr>)"
proof -
  let ?s0 = "\<lparr>orders = ords, con = db_file fs, con_closed = False, logged = [],
                 db_backup_b4 = b4_file fs, db_backup_after = after_file fs\<rparr>"
  have "OrdersDB_init e fs ords = create_schema e ?s0"
    using assms(1) by (simp add: OrdersDB_init_def execute_def then_do_def)
  also have "\<dots> = (Inr (), logging DEBUG (logging DEBUG (logging DEBUG ?s0)))"
    by (rule create_schema_already_exists[OF _ assms(2,3)]) (simp_all add: assms(4,5))
  finally show ?thesis by (simp add: logging_def)
qed

text \<open>
  Claim C8. On an open connection, and with an environment that makes CREATE TABLE fail
  with \<open>OperationalError\<close> or not at all, \<open>__create_schema\<close> never raises. When both tables
  already exist, each CREATE TABLE raises \<open>OperationalError\<close>; it is caught and logged at DEBUG,
  the closing DEBUG line follows, and the store is unchanged. A second call leaves the store
  as the first call left it.
\<close>

theorem create_schema_idempotent:
  assumes "\<not> con_closed s"
    "fails e CreateProgramRuns = None \<or> fails e CreateProgramRuns = Some OperationalError"
    "fails e CreateOrders = None \<or> fails e CreateOrders = Some OperationalError"
  shows "fst (create_schema e s) = Inr () \<and>
         con (snd (create_schema e (snd (create_schema e s)))) = con (snd (create_schema e s)) \<and>
         (program_runs (con s) \<noteq> None \<and> orders_tbl (con s) \<noteq> None \<longrightarrow>
            create_schema e s = (Inr (), logging DEBUG (logging DEBUG (logging DEBUG s))))"
  using create_schema_returns[OF assms] create_schema_twice[OF assms]
    create_schema_already_exists[OF assms]
  by auto

theorem create_schema_idempotent_witness:
  "program_runs (con instance_A1) \<noteq> None \<and> orders_tbl (con instance_A1) \<noteq> None \<and>
   create_schema env_jan01 instance_A1 =
     (Inr (), logging DEBUG (logging DEBUG (logging DEBUG instance_A1)))"
proof -
  have h1: "\<not> con_closed instance_A1" by (simp add: instance_A1_def)
  have h2: "fails env_jan01 CreateProgramRuns = None \<or>
            fails env_jan01 CreateProgramRuns = Some OperationalError"
    by (simp add: env_jan01_def no_failure_def)
  have h3: "fails env_jan01 CreateOrders = None \<or>
            fails env_jan01 CreateOrders = Some OperationalError"
    by (simp add: env_jan01_def no_failure_def)
  have t: "program_runs (con instance_A1) \<noteq> None \<and> orders_tbl (con instance_A1) \<noteq> None"
    by (simp add: instance_A1_def store_A1_def)
  show ?thesis using create_schema_idempotent[OF h1 h2 h3] t by blast
qed

section \<open>Deduplication query\<close>

lemma new_orders_of_filter:
  "\<forall>od \<in> set C. od ''order-id'' \<noteq> None \<Longrightarrow>
   new_orders_of C (Some ids) = Inr (filter (\<lambda>od. od ''order-id'' \<notin> Some ` set ids) C)"
  by (induction C) (auto split: option.splits)

lemma get_new_orders_only_open:
  assumes "\<not> con_closed s" "fails e SelectOrderIds = None" "orders_tbl (con s) = Some rows"
    "\<forall>od \<in> set (orders s). od ''order-id'' \<noteq> None"
  shows "fst (get_new_orders_only e s) =
     Inr (filter (\<lambda>od. od ''order-id'' \<notin> Some ` set (map order_id rows)) (orders s))"
  using assms
  by (simp add: get_new_orders_only_def get_order_ids_in_db_def then_do_def try_except_def
      with_con_def fetch_def sql_select_order_ids_def logging_def new_orders_of_filter)

lemma get_new_orders_only_instance:
  assumes "\<forall>st. fails e st = None" and "\<forall>od \<in> set C. od ''order-id'' \<noteq> None"
  shows "fst (OrdersDB_init e fs C) = Inr () \<and>
         fst (get_new_orders_only e (snd (OrdersDB_init e fs C))) =
           Inr (filter (\<lambda>od. od ''order-id'' \<notin> Some ` set (stored_ids (db_file fs))) C)"
proof -
  let ?s0 = "\<lparr>orders = C, con = db_file fs, con_closed = False, logged = [],
                 db_backup_b4 = b4_file fs, db_backup_after = after_file fs\<rparr>"
  let ?rows = "case orders_tbl (db_file fs) of None \<Rightarrow> [] | Some rows \<Rightarrow> rows"
  have init: "OrdersDB_init e fs C = create_schema e ?s0"
    using assms(1) by (simp add: OrdersDB_init_def execute_def then_do_def)
  have open0: "\<not> con_closed ?s0" by simp
  note cs = create_schema_no_faults[OF assms(1)[rule_format] assms(1)[rule_format] open0]
  have ok: "fst (OrdersDB_init e fs C) = Inr ()" using cs(1) init by simp
  let ?s = "snd (create_schema e ?s0)"
  have tbl: "orders_tbl (con ?s) = Some ?rows"
    using cs(2) by simp
  have ords: "orders ?s = C" using cs(5) by simp
  have "fst (get_new_orders_only e ?s) =
     Inr (filter (\<lambda>od. od ''order-id'' \<notin> Some ` set (map order_id ?rows)) (orders ?s))"
    by (rule get_new_orders_only_open[OF cs(4) assms(1)[rule_format] tbl])
       (simp add: ords assms(2))
  moreover have "map order_id ?rows = stored_ids (db_file fs)"
    by (simp add: stored_ids_def split: option.splits)
  ultimately show ?thesis using ok init ords by simp
qed

text \<open>
  Claim C1. An \<open>OrdersDB\<close> object built over any store file, holding a batch \<open>C\<close> whose
  records all carry the key \<open>order-id\<close>, answers \<open>get_new_orders_only()\<close> with exactly the
  records of \<open>C\<close> whose identifier is not among the stored identifiers, in the order of
  \<open>C\<close>. The test is equality of the identifier strings.
\<close>

theorem get_new_orders_only_exact:
  assumes "\<forall>st. fails e st = None" and "\<forall>od \<in> set C. od ''order-id'' \<noteq> None"
  shows "fst (OrdersDB_init e fs C) = Inr () \<and>
         fst (get_new_orders_only e (snd (OrdersDB_init e fs C))) =
           Inr (filter (\<lambda>od. od ''order-id'' \<notin> Some ` set (stored_ids (db_file fs))) C)"
  using assms by (rule get_new_orders_only_instance)

theorem get_new_orders_only_exact_witness:
  "(\<forall>st. fails env_jan01 st = None) \<and>
   order_A1 ''order-id'' \<noteq> None \<and> order_A2 ''order-id'' \<noteq> None \<and>
   fst (get_new_orders_only env_jan01 (snd (OrdersDB_init env_jan01 files_A1 [order_A1, order_A2])))
     = Inr [order_A2]"
proof -
  have h1: "\<forall>st. fails env_jan01 st = None"
    by (simp add: env_jan01_def no_failure_def)
  have h2: "\<forall>od \<in> set [order_A1, order_A2]. od ''order-id'' \<noteq> None"
    by (simp add: order_A1_def order_A2_def)
  have ids: "stored_ids (db_file files_A1) = [''A1'']"
    by (simp add: files_A1_def store_A1_def stored_ids_def row_A1_def)
  have k1: "order_A1 ''order-id'' = Some ''A1''" by (simp add: order_A1_def)
  have k2: "order_A2 ''order-id'' = Some ''A2''" by (simp add: order_A2_def)
  show ?thesis
    using get_new_orders_only_exact[OF h1 h2, of files_A1] h1
    by (simp add: ids k1 k2)
qed

text \<open>
  Claim C10. The batch is filtered against the stored identifiers only: every record of the
  batch whose identifier \<open>k\<close> is not stored is returned, as often as it occurs in the batch,
  so two records sharing such an identifier are both returned.
\<close>

theorem get_new_orders_only_keeps_batch_duplicates:
  assumes "\<forall>st. fails e st = None" and "\<forall>od \<in> set C. od ''order-id'' \<noteq> None"
    and "k \<notin> set (stored_ids (db_file fs))"
  shows "\<exists>new_orders.
           fst (get_new_orders_only e (snd (OrdersDB_init e fs C))) = Inr new_orders \<and>
           filter (\<lambda>od. od ''order-id'' = Some k) new_orders =
             filter (\<lambda>od. od ''order-id'' = Some k) C \<and>
           (\<forall>od \<in> set C. od ''order-id'' = Some k \<longrightarrow> od \<in> set new_orders)"
proof -
  let ?new = "filter (\<lambda>od. od ''order-id'' \<notin> Some ` set (stored_ids (db_file fs))) C"
  have res: "fst (get_new_orders_only e (snd (OrdersDB_init e fs C))) = Inr ?new"
    using get_new_orders_only_instance[OF assms(1,2)] by simp
  have keep: "od ''order-id'' = Some k \<Longrightarrow> od ''order-id'' \<notin> Some ` set (stored_ids (db_file fs))"
    for od :: order_dict
    using assms(3) by auto
  have "filter (\<lambda>od. od ''order-id'' = Some k) ?new = filter (\<lambda>od. od ''order-id'' = Some k) C"
    unfolding filter_filter by (rule filter_cong) (use keep in auto)
  moreover have "\<forall>od \<in> set C. od ''order-id'' = Some k \<longrightarrow> od \<in> set ?new"
    using keep by simp
  ultimately show ?thesis using res by blast
qed

theorem get_new_orders_only_keeps_batch_duplicates_witness:
  "(\<forall>st. fails env_jan01 st = None) \<and>
   order_A2 ''order-id'' \<noteq> None \<and> order_A1 ''order-id'' \<noteq> None \<and>
   order_A2_again ''order-id'' \<noteq> None \<and>
   ''A2'' \<notin> set (stored_ids (db_file files_A1)) \<and>
   fst (get_new_orders_only env_jan01
          (snd (OrdersDB_init env_jan01 files_A1 [order_A2, order_A1, order_A2_again])))
     = Inr [order_A2, order_A2_again]"
proof -
  have h1: "\<forall>st. fails env_jan01 st = None"
    by (simp add: env_jan01_def no_failure_def)
  have h2: "\<forall>od \<in> set [order_A2, order_A1, order_A2_again]. od ''order-id'' \<noteq> None"
    by (simp add: order_A1_def order_A2_def order_A2_again_def)
  have ids: "stored_ids (db_file files_A1) = [''A1'']"
    by (simp add: files_A1_def store_A1_def stored_ids_def row_A1_def)
  have h3: "''A2'' \<notin> set (stored_ids (db_file files_A1))" by (simp add: ids)
  have k1: "order_A1 ''order-id'' = Some ''A1''" by (simp add: order_A1_def)
  have k2: "order_A2 ''order-id'' = Some ''A2''" by (simp add: order_A2_def)
  have k3: "order_A2_again ''order-id'' = Some ''A2''" by (simp add: order_A2_again_def)
  obtain new_orders where
    r: "fst (get_new_orders_only env_jan01
          (snd (OrdersDB_init env_jan01 files_A1 [order_A2, order_A1, order_A2_again])))
        = Inr new_orders"
    and f: "filter (\<lambda>od. od ''order-id'' = Some ''A2'') new_orders =
            filter (\<lambda>od. od ''order-id'' = Some ''A2'') [order_A2, order_A1, order_A2_again]"
    using get_new_orders_only_keeps_batch_duplicates[OF h1 h2 h3] by blast
  have all: "new_orders = filter (\<lambda>od. od ''order-id'' \<notin> Some ` set [''A1''])
                            [order_A2, order_A1, order_A2_again]"
    using get_new_orders_only_instance[OF h1 h2, of files_A1] r by (simp add: ids)
  show ?thesis using h1 h3 r all by (simp add: k1 k2 k3)
qed

section \<open>The weekday helper\<close>

text \<open>
  Claim C9 asks for the default moment to be read at each call. The default argument is
  evaluated once, when the method is defined: a call without argument on the day after the
  import answers with the weekday of the import day (Monday, 1), not with that of the day of
  the call (Tuesday, 2).
\<close>

theorem get_today_weekday_int_default_is_import_day:
  "get_today_weekday_int (env_jan01\<lparr>utc_now := 738886 * 86400000 + 36000000\<rparr>) None = 1 \<and>
   datetime_weekday (local_now (env_jan01\<lparr>utc_now := 738886 * 86400000 + 36000000\<rparr>)) + 1 = 2"
  by (simp add: get_today_weekday_int_def datetime_weekday_def date_of_def day_ms_def
      local_now_def env_jan01_def)

section \<open>Order repository\<close>

subsection \<open>Every statement keeps the identifiers distinct\<close>

lemma execute_stored_ids:
  assumes "\<And>d d'. f d = Inr d' \<Longrightarrow> unique_order_ids d \<Longrightarrow> unique_order_ids d'"
    "unique_order_ids (con s)"
  shows "unique_order_ids (con (snd (execute e st params f s)))"
  using assms by (auto simp: execute_def split: option.splits sum.splits)

lemma sql_create_program_runs_unique:
  "sql_create_program_runs d = Inr d' \<Longrightarrow> unique_order_ids d \<Longrightarrow> unique_order_ids d'"
  by (auto simp: sql_create_program_runs_def unique_order_ids_def stored_ids_def
      split: option.splits)

lemma sql_create_orders_unique:
  "sql_create_orders d = Inr d' \<Longrightarrow> unique_order_ids d \<Longrightarrow> unique_order_ids d'"
  by (auto simp: sql_create_orders_def unique_order_ids_def stored_ids_def
      split: option.splits)

lemma sql_insert_run_unique:
  "sql_insert_run t wd d = Inr d' \<Longrightarrow> unique_order_ids d \<Longrightarrow> unique_order_ids d'"
  by (auto simp: sql_insert_run_def unique_order_ids_def stored_ids_def
      split: option.splits)

lemma sql_insert_order_unique:
  "sql_insert_order e oid pd pay buyer added rn d = Inr d' \<Longrightarrow> unique_order_ids d \<Longrightarrow>
   unique_order_ids d'"
  by (auto simp: sql_insert_order_def unique_order_ids_def stored_ids_def
      split: option.splits if_splits)

lemma sql_delete_run_unique:
  "sql_delete_run r d = Inr d' \<Longrightarrow> unique_order_ids d \<Longrightarrow> unique_order_ids d'"
  by (auto simp: sql_delete_run_def unique_order_ids_def stored_ids_def distinct_map_filter
      split: option.splits)

lemma create_schema_unique:
  "unique_order_ids (con s) \<Longrightarrow> unique_order_ids (con (snd (create_schema e s)))"
  unfolding create_schema_def
  apply (rule then_do_inv[where I = "\<lambda>s. unique_order_ids (con s)"])
   apply (rule try_except_con[where I = unique_order_ids])
    apply (rule with_con_con[where I = unique_order_ids])
     apply (rule execute_stored_ids[OF sql_create_program_runs_unique]; assumption)
    apply assumption
   apply assumption
  apply (rule then_do_inv[where I = "\<lambda>s. unique_order_ids (con s)"])
   apply (rule try_except_con[where I = unique_order_ids])
    apply (rule with_con_con[where I = unique_order_ids])
     apply (rule execute_stored_ids[OF sql_create_orders_unique]; assumption)
    apply assumption
   apply assumption
  apply (simp add: logging_def)
  done

lemma OrdersDB_init_unique:
  assumes "unique_order_ids (db_file fs)"
  shows "unique_order_ids (con (snd (OrdersDB_init e fs ords)))"
  unfolding OrdersDB_init_def
  apply (rule then_do_inv[where I = "\<lambda>s. unique_order_ids (con s)"])
   apply (simp add: execute_def assms split: option.splits)
  apply (erule create_schema_unique)
  done

lemma insert_new_run_unique:
  "unique_order_ids (con s) \<Longrightarrow> unique_order_ids (con (snd (insert_new_run e wd rt s)))"
  unfolding insert_new_run_def
  apply (rule then_do_inv[where I = "\<lambda>s. unique_order_ids (con s)"])
   apply (rule try_except_con[where I = unique_order_ids])
    apply (rule with_con_con[where I = unique_order_ids])
     apply (rule then_do_inv[where I = "\<lambda>s. unique_order_ids (con s)"])
      apply (rule execute_stored_ids[OF sql_insert_run_unique]; assumption)
     apply (simp add: logging_def)
    apply assumption
   apply assumption
  apply simp
  done

lemma insert_new_order_unique:
  "unique_order_ids (con s) \<Longrightarrow>
   unique_order_ids (con (snd (insert_new_order e oid pd pay buyer added rn s)))"
  unfolding insert_new_order_def
  apply (rule then_do_inv[where I = "\<lambda>s. unique_order_ids (con s)"])
   apply (rule try_except_con[where I = unique_order_ids])
    apply (rule then_do_inv[where I = "\<lambda>s. unique_order_ids (con s)"])
     apply (rule with_con_con[where I = unique_order_ids])
      apply (rule execute_stored_ids[OF sql_insert_order_unique]; assumption)
     apply assumption
    apply (simp add: logging_def)
   apply assumption
  apply simp
  done

lemma insert_each_unique:
  "unique_order_ids (con s) \<Longrightarrow> unique_order_ids (con (snd (insert_each e added ords rn s)))"
proof (induction ords arbitrary: s)
  case Nil
  then show ?case by simp
next
  case (Cons a ords)
  have "unique_order_ids (con (snd (then_do (insert_new_order e oid pd pay buyer added rn s)
            (\<lambda>_ s'. insert_each e added ords rn (logging DEBUG s')))))"
    for oid pd pay buyer
    by (rule then_do_inv[where I = "\<lambda>s. unique_order_ids (con s)"])
       (simp_all add: insert_new_order_unique Cons logging_simps)
  then show ?case using Cons.prems by (simp split: option.splits)
qed

lemma insert_multiple_orders_unique:
  "unique_order_ids (con s) \<Longrightarrow>
   unique_order_ids (con (snd (insert_multiple_orders e ords rn s)))"
  unfolding insert_multiple_orders_def
  by (rule then_do_inv[where I = "\<lambda>s. unique_order_ids (con s)"])
     (simp_all add: insert_each_unique logging_simps)

lemma delete_each_unique:
  "unique_order_ids (con s) \<Longrightarrow> unique_order_ids (con (snd (delete_each e ids s)))"
proof (induction ids arbitrary: s)
  case Nil
  then show ?case by simp
next
  case (Cons a ids)
  show ?case unfolding delete_each.simps
    by (rule then_do_inv[where I = "\<lambda>s. unique_order_ids (con s)"])
       (simp_all add: execute_stored_ids[OF sql_delete_run_unique] Cons)
qed

lemma flush_old_orders_unique:
  assumes "unique_order_ids (con s)"
  shows "unique_order_ids (con (snd (flush_old_orders e n s)))"
  unfolding flush_old_orders_def
proof (rule then_do_inv[where I = "\<lambda>s. unique_order_ids (con s)"])
  show "unique_order_ids (con (snd (get_old_runs_ids e n s)))"
    using assms by (simp add: get_old_runs_ids_con)
next
  fix v and s :: OrdersDB assume u: "unique_order_ids (con s)"
  have d: "unique_order_ids (con (snd (case v of None \<Rightarrow> (Inl TypeError, s)
                                         | Some ids \<Rightarrow> delete_each e ids s)))"
    if "unique_order_ids (con s)" for s :: OrdersDB
    using that by (simp add: delete_each_unique split: option.splits)
  show "unique_order_ids (con (snd (then_do (try_except (\<lambda>x. if x = OperationalError then Some ERROR else Some ERROR)
                     (\<lambda>s. then_do
                         (with_con (\<lambda>s. case v of
                                           None \<Rightarrow> (Inl TypeError, s)
                                         | Some ids \<Rightarrow> delete_each e ids s) s)
                         (\<lambda>_ s'. (Inr (), logging INFO s'))) s)
            (\<lambda>_ s2. (Inr (), s2)))))"
    apply (rule then_do_inv[where I = "\<lambda>s. unique_order_ids (con s)"])
     apply (rule try_except_con[where I = unique_order_ids])
      apply (rule then_do_inv[where I = "\<lambda>s. unique_order_ids (con s)"])
       apply (rule with_con_con[where I = unique_order_ids])
        apply (erule d)
       apply assumption
      apply (simp add: logging_simps)
     apply (rule u)
    apply simp
    done
qed

lemma add_orders_to_db_unique:
  assumes "unique_order_ids (con s)"
  shows "unique_order_ids (con (snd (add_orders_to_db e s)))"
  unfolding add_orders_to_db_def
  apply (rule then_do_inv[where I = "\<lambda>s. unique_order_ids (con s)"])
   apply (simp add: backup_db_con assms)
  apply (rule then_do_inv[where I = "\<lambda>s. unique_order_ids (con s)"])
   apply (erule insert_new_run_unique)
  apply (rule then_do_inv[where I = "\<lambda>s. unique_order_ids (con s)"])
   apply (simp add: get_current_run_id_con)
  apply (rule then_do_inv[where I = "\<lambda>s. unique_order_ids (con s)"])
   apply (erule insert_multiple_orders_unique)
  apply (rule then_do_inv[where I = "\<lambda>s. unique_order_ids (con s)"])
   apply (erule flush_old_orders_unique)
  apply (rule then_do_inv[where I = "\<lambda>s. unique_order_ids (con s)"])
   apply (simp add: backup_db_con)
  apply (simp add: con_close_def)
  done

subsection \<open>A duplicate is rejected and the batch goes on\<close>

lemma insert_new_order_duplicate:
  assumes "oid \<in> set (stored_ids (con s))"
  shows "insert_new_order e oid pd pay buyer added rn s = (Inr (), logging ERROR s)"
proof -
  obtain rows where rows: "orders_tbl (con s) = Some rows" "oid \<in> set (map order_id rows)"
    using assms by (cases "orders_tbl (con s)") (simp_all add: stored_ids_def)
  have "\<exists>x. execute e (InsertOrder oid) (case rn of None \<Rightarrow> [] | Some r \<Rightarrow> [r])
      (sql_insert_order e oid pd pay buyer added rn) s = (Inl x, s)"
    using rows by (auto simp: execute_def sql_insert_order_def split: option.splits)
  then obtain x where
    "with_con (execute e (InsertOrder oid) (case rn of None \<Rightarrow> [] | Some r \<Rightarrow> [r])
      (sql_insert_order e oid pd pay buyer added rn)) s
       = (Inl x, s)"
    by (auto simp: with_con_def)
  then show ?thesis
    by (simp add: insert_new_order_def then_do_def try_except_def)
qed

lemma insert_new_order_returns:
  "fst (insert_new_order e oid pd pay buyer added rn s) = Inr ()"
  by (simp add: insert_new_order_def then_do_def try_except_def split: prod.splits sum.splits)

lemma insert_new_order_keeps_rows:
  assumes "orders_tbl (con s) = Some rows"
  shows "\<exists>new. orders_tbl (con (snd (insert_new_order e oid pd pay buyer added rn s)))
                = Some (rows @ new)"
proof -
  let ?ex = "execute e (InsertOrder oid) (case rn of None \<Rightarrow> [] | Some r \<Rightarrow> [r])
      (sql_insert_order e oid pd pay buyer added rn) s"
  have "\<exists>new. orders_tbl (con (snd ?ex)) = Some (rows @ new)"
    using assms
    by (auto simp: execute_def sql_insert_order_def split: option.splits sum.splits if_splits)
  then obtain new where n: "orders_tbl (con (snd ?ex)) = Some (rows @ new)" by blast
  have "orders_tbl (con (snd (insert_new_order e oid pd pay buyer added rn s))) =
        Some (rows @ new) \<or>
        orders_tbl (con (snd (insert_new_order e oid pd pay buyer added rn s))) = Some (rows @ [])"
    using n assms
    by (cases ?ex) (auto simp: insert_new_order_def then_do_def try_except_def with_con_def
        logging_def split: sum.splits)
  then show ?thesis by blast
qed

lemma insert_new_order_relog:
  "\<exists>l'. insert_new_order e oid pd pay buyer added rn (s\<lparr>logged := l\<rparr>) =
         (Inr (), (snd (insert_new_order e oid pd pay buyer added rn s))\<lparr>logged := l'\<rparr>)"
  by (auto simp: insert_new_order_def then_do_def try_except_def with_con_def execute_def
      logging_def split: option.splits sum.splits)

lemma insert_new_order_keeps_ids:
  assumes "oid' \<in> set (stored_ids (con s))"
  shows "oid' \<in> set (stored_ids (con (snd (insert_new_order e oid pd pay buyer added rn s))))"
proof -
  obtain rows where rows: "orders_tbl (con s) = Some rows" "oid' \<in> set (map order_id rows)"
    using assms by (cases "orders_tbl (con s)") (simp_all add: stored_ids_def)
  obtain new where "orders_tbl (con (snd (insert_new_order e oid pd pay buyer added rn s)))
                = Some (rows @ new)"
    using insert_new_order_keeps_rows[OF rows(1)] by blast
  then show ?thesis using rows(2) by (simp add: stored_ids_def)
qed

lemma insert_each_relog:
  "fst (insert_each e added ys rn (s\<lparr>logged := l\<rparr>)) = fst (insert_each e added ys rn s) \<and>
   (\<exists>l'. snd (insert_each e added ys rn (s\<lparr>logged := l\<rparr>)) =
          (snd (insert_each e added ys rn s))\<lparr>logged := l'\<rparr>)"
proof (induction ys arbitrary: s l)
  case Nil
  show ?case by (intro conjI exI[of _ l]) simp_all
next
  case (Cons y ys)
  show ?case
  proof (cases "\<exists>oid pd pay buyer. y ''order-id'' = Some oid \<and> y ''purchase-date'' = Some pd \<and>
                  y ''payments-date'' = Some pay \<and> y ''buyer-name'' = Some buyer")
    case False
    then have a: "insert_each e added (y # ys) rn t = (Inl KeyError, t)" for t
      by (auto split: option.splits)
    show ?thesis unfolding a by (intro conjI exI[of _ l]) simp_all
  next
    case True
    then obtain oid pd pay buyer where k: "y ''order-id'' = Some oid"
      "y ''purchase-date'' = Some pd" "y ''payments-date'' = Some pay"
      "y ''buyer-name'' = Some buyer" by blast
    obtain s1 where i1: "insert_new_order e oid pd pay buyer added rn s = (Inr (), s1)"
      using insert_new_order_returns[of e oid pd pay buyer added rn s]
      by (cases "insert_new_order e oid pd pay buyer added rn s") simp
    obtain l1 where i2: "insert_new_order e oid pd pay buyer added rn (s\<lparr>logged := l\<rparr>)
                         = (Inr (), s1\<lparr>logged := l1\<rparr>)"
      using insert_new_order_relog[where e = e and oid = oid and pd = pd and pay = pay
          and buyer = buyer and added = added and rn = rn and s = s and l = l] i1 by auto
    have A: "insert_each e added (y # ys) rn (s\<lparr>logged := l\<rparr>)
             = insert_each e added ys rn (s1\<lparr>logged := l1 @ [DEBUG]\<rparr>)"
      by (simp add: k i2 then_do_def logging_def)
    have B: "insert_each e added (y # ys) rn s
             = insert_each e added ys rn (s1\<lparr>logged := logged s1 @ [DEBUG]\<rparr>)"
      by (simp add: k i1 then_do_def logging_def)
    obtain la where a: "fst (insert_each e added ys rn (s1\<lparr>logged := l1 @ [DEBUG]\<rparr>))
                         = fst (insert_each e added ys rn s1)"
        "snd (insert_each e added ys rn (s1\<lparr>logged := l1 @ [DEBUG]\<rparr>))
           = (snd (insert_each e added ys rn s1))\<lparr>logged := la\<rparr>"
      using Cons.IH[where s = s1 and l = "l1 @ [DEBUG]"] by blast
    obtain lb where b: "fst (insert_each e added ys rn (s1\<lparr>logged := logged s1 @ [DEBUG]\<rparr>))
                         = fst (insert_each e added ys rn s1)"
        "snd (insert_each e added ys rn (s1\<lparr>logged := logged s1 @ [DEBUG]\<rparr>))
           = (snd (insert_each e added ys rn s1))\<lparr>logged := lb\<rparr>"
      using Cons.IH[where s = s1 and l = "logged s1 @ [DEBUG]"] by blast
    have c: "snd (insert_each e added ys rn (s1\<lparr>logged := l1 @ [DEBUG]\<rparr>))
          = (snd (insert_each e added ys rn (s1\<lparr>logged := logged s1 @ [DEBUG]\<rparr>)))\<lparr>logged := la\<rparr>"
      by (simp add: a(2) b(2))
    show ?thesis unfolding A B
    proof (intro conjI exI[of _ la])
      show "fst (insert_each e added ys rn (s1\<lparr>logged := l1 @ [DEBUG]\<rparr>))
            = fst (insert_each e added ys rn (s1\<lparr>logged := logged s1 @ [DEBUG]\<rparr>))"
        by (simp only: a(1) b(1))
      show "snd (insert_each e added ys rn (s1\<lparr>logged := l1 @ [DEBUG]\<rparr>))
          = (snd (insert_each e added ys rn (s1\<lparr>logged := logged s1 @ [DEBUG]\<rparr>)))\<lparr>logged := la\<rparr>"
        by (rule c)
    qed
  qed
qed

lemma insert_each_skips_duplicate:
  assumes "d ''order-id'' = Some oid" "d ''purchase-date'' = Some pd"
    "d ''payments-date'' = Some pay" "d ''buyer-name'' = Some buyer"
    "oid \<in> set (stored_ids (con s))"
  shows "fst (insert_each e added (xs @ d # ys) rn s) = fst (insert_each e added (xs @ ys) rn s) \<and>
    (\<exists>l'. snd (insert_each e added (xs @ d # ys) rn s) =
           (snd (insert_each e added (xs @ ys) rn s))\<lparr>logged := l'\<rparr>)"
  using assms(5)
proof (induction xs arbitrary: s)
  case Nil
  have "insert_each e added (d # ys) rn s
        = insert_each e added ys rn (s\<lparr>logged := logged s @ [ERROR] @ [DEBUG]\<rparr>)"
    by (simp add: assms(1-4) insert_new_order_duplicate[OF Nil] then_do_def logging_def)
  then show ?case
    using insert_each_relog[where e = e and added = added and ys = ys and rn = rn and s = s
        and l = "logged s @ [ERROR] @ [DEBUG]"]
    by simp
next
  case (Cons x xs)
  show ?case
  proof (cases "\<exists>oid pd pay buyer. x ''order-id'' = Some oid \<and> x ''purchase-date'' = Some pd \<and>
                  x ''payments-date'' = Some pay \<and> x ''buyer-name'' = Some buyer")
    case False
    then have a: "insert_each e added (x # zs) rn t = (Inl KeyError, t)" for t zs
      by (auto split: option.splits)
    show ?thesis unfolding append_Cons a
      by (intro conjI exI[of _ "logged s"]) simp_all
  next
    case True
    then obtain xoid xpd xpay xbuyer where k: "x ''order-id'' = Some xoid"
      "x ''purchase-date'' = Some xpd" "x ''payments-date'' = Some xpay"
      "x ''buyer-name'' = Some xbuyer" by blast
    obtain s1 where i1: "insert_new_order e xoid xpd xpay xbuyer added rn s = (Inr (), s1)"
      using insert_new_order_returns[of e xoid xpd xpay xbuyer added rn s]
      by (cases "insert_new_order e xoid xpd xpay xbuyer added rn s") simp
    have st: "oid \<in> set (stored_ids (con (logging DEBUG s1)))"
      using insert_new_order_keeps_ids[OF Cons.prems, of e xoid xpd xpay xbuyer added rn] i1
      by (simp add: logging_simps)
    have A: "insert_each e added (x # zs) rn s = insert_each e added zs rn (logging DEBUG s1)"
      for zs
      by (simp add: k i1 then_do_def)
    show ?thesis using Cons.IH[OF st] A[of "xs @ d # ys"] A[of "xs @ ys"] by simp
  qed
qed

lemma insert_multiple_orders_skips_duplicate:
  assumes "d ''order-id'' = Some oid" "d ''purchase-date'' = Some pd"
    "d ''payments-date'' = Some pay" "d ''buyer-name'' = Some buyer"
    "oid \<in> set (stored_ids (con s))"
  shows "fst (insert_multiple_orders e (xs @ d # ys) rn s)
           = fst (insert_multiple_orders e (xs @ ys) rn s) \<and>
         con (snd (insert_multiple_orders e (xs @ d # ys) rn s))
           = con (snd (insert_multiple_orders e (xs @ ys) rn s))"
proof -
  let ?a = "date_of (local_now e)"
  obtain l' where r: "fst (insert_each e ?a (xs @ d # ys) rn s) = fst (insert_each e ?a (xs @ ys) rn s)"
     "snd (insert_each e ?a (xs @ d # ys) rn s) = (snd (insert_each e ?a (xs @ ys) rn s))\<lparr>logged := l'\<rparr>"
    using insert_each_skips_duplicate[OF assms, of e ?a xs ys rn] by blast
  show ?thesis
    using r
    by (cases "insert_each e ?a (xs @ d # ys) rn s"; cases "insert_each e ?a (xs @ ys) rn s")
       (auto simp: insert_multiple_orders_def then_do_def logging_def split: sum.splits)
qed

lemma insert_each_keeps_rows:
  assumes "orders_tbl (con s) = Some rows"
  shows "\<exists>new. orders_tbl (con (snd (insert_each e added ords rn s))) = Some (rows @ new)"
  using assms
proof (induction ords arbitrary: s rows)
  case Nil
  then show ?case by simp
next
  case (Cons x ords)
  show ?case
  proof (cases "\<exists>oid pd pay buyer. x ''order-id'' = Some oid \<and> x ''purchase-date'' = Some pd \<and>
                  x ''payments-date'' = Some pay \<and> x ''buyer-name'' = Some buyer")
    case False
    then have a: "insert_each e added (x # ords) rn s = (Inl KeyError, s)"
      by (auto split: option.splits)
    show ?thesis unfolding a using Cons.prems by simp
  next
    case True
    then obtain xoid xpd xpay xbuyer where k: "x ''order-id'' = Some xoid"
      "x ''purchase-date'' = Some xpd" "x ''payments-date'' = Some xpay"
      "x ''buyer-name'' = Some xbuyer" by blast
    obtain s1 where i1: "insert_new_order e xoid xpd xpay xbuyer added rn s = (Inr (), s1)"
      using insert_new_order_returns[of e xoid xpd xpay xbuyer added rn s]
      by (cases "insert_new_order e xoid xpd xpay xbuyer added rn s") simp
    obtain new1 where n1: "orders_tbl (con (logging DEBUG s1)) = Some (rows @ new1)"
      using insert_new_order_keeps_rows[OF Cons.prems, of e xoid xpd xpay xbuyer added rn] i1
      by (auto simp: logging_simps)
    have A: "insert_each e added (x # ords) rn s = insert_each e added ords rn (logging DEBUG s1)"
      by (simp add: k i1 then_do_def)
    obtain new2 where "orders_tbl (con (snd (insert_each e added ords rn (logging DEBUG s1))))
                       = Some ((rows @ new1) @ new2)"
      using Cons.IH[OF n1] by blast
    then show ?thesis unfolding A by auto
  qed
qed

lemma insert_multiple_orders_keeps_rows:
  assumes "orders_tbl (con s) = Some rows"
  shows "\<exists>new. orders_tbl (con (snd (insert_multiple_orders e ords rn s))) = Some (rows @ new)"
proof -
  obtain new where "orders_tbl (con (snd (insert_each e (date_of (local_now e)) ords rn s)))
                    = Some (rows @ new)"
    using insert_each_keeps_rows[OF assms] by blast
  then show ?thesis
    by (cases "insert_each e (date_of (local_now e)) ords rn s")
       (auto simp: insert_multiple_orders_def then_do_def logging_def split: sum.splits)
qed

lemma jan01_insert_A2:
  "orders_tbl (con (snd (insert_multiple_orders env_jan01 [order_A2] (Some 1) instance_A1)))
     = Some [row_A1, row_A2]"
  by (simp add: insert_multiple_orders_def insert_new_order_def sql_insert_order_def
      then_do_def try_except_def with_con_def execute_def logging_def
      local_now_def date_of_def day_ms_def current_timestamp_def sqlite_int_def
      env_jan01_def no_failure_def instance_A1_def store_A1_def
      run_1_def row_A1_def row_A2_def order_A2_def)

text \<open>
  Claim C2. Starting from a store whose order identifiers are pairwise distinct, they are
  still pairwise distinct after each method that touches the store. An insert of an
  identifier that is already stored is rejected for that row: \<open>insert_new_order\<close> returns
  normally, logs at ERROR and leaves the store as it was. Inside a batch such a record has no
  effect on the rest: the batch with the duplicate ends with the same outcome and the same
  store as the batch without it, and every row stored before the batch is still there,
  unchanged, after it.
\<close>

theorem order_ids_stay_unique:
  assumes "unique_order_ids (con s)"
  shows "unique_order_ids (con (snd (insert_new_order e oid pd pay buyer added rn s))) \<and>
    unique_order_ids (con (snd (insert_multiple_orders e ords rn s))) \<and>
    unique_order_ids (con (snd (add_orders_to_db e s))) \<and>
    unique_order_ids (con (snd (flush_old_orders e n s))) \<and>
    unique_order_ids (con (snd (create_schema e s))) \<and>
    unique_order_ids (con (snd (insert_new_run e wd run_time_default s))) \<and>
    unique_order_ids (con (snd (get_new_orders_only e s))) \<and>
    (oid \<in> set (stored_ids (con s)) \<longrightarrow>
       insert_new_order e oid pd pay buyer added rn s = (Inr (), logging ERROR s)) \<and>
    (\<forall>d xs ys. d ''order-id'' = Some oid \<and> d ''purchase-date'' \<noteq> None \<and>
        d ''payments-date'' \<noteq> None \<and> d ''buyer-name'' \<noteq> None \<and>
        oid \<in> set (stored_ids (con s)) \<longrightarrow>
       fst (insert_multiple_orders e (xs @ d # ys) rn s)
         = fst (insert_multiple_orders e (xs @ ys) rn s) \<and>
       con (snd (insert_multiple_orders e (xs @ d # ys) rn s))
         = con (snd (insert_multiple_orders e (xs @ ys) rn s))) \<and>
    (\<forall>rows. orders_tbl (con s) = Some rows \<longrightarrow>
       (\<exists>new. orders_tbl (con (snd (insert_multiple_orders e ords rn s))) = Some (rows @ new)))"
proof -
  have dup: "fst (insert_multiple_orders e (xs @ d # ys) rn s)
         = fst (insert_multiple_orders e (xs @ ys) rn s) \<and>
       con (snd (insert_multiple_orders e (xs @ d # ys) rn s))
         = con (snd (insert_multiple_orders e (xs @ ys) rn s))"
    if h: "d ''order-id'' = Some oid \<and> d ''purchase-date'' \<noteq> None \<and>
        d ''payments-date'' \<noteq> None \<and> d ''buyer-name'' \<noteq> None \<and>
        oid \<in> set (stored_ids (con s))" for d xs ys
  proof -
    obtain pd' pay' buyer' where "d ''purchase-date'' = Some pd'"
      "d ''payments-date'' = Some pay'" "d ''buyer-name'' = Some buyer'"
      using h by auto
    then show ?thesis
      using insert_multiple_orders_skips_duplicate[of d oid pd' pay' buyer' s e xs ys rn] h
      by blast
  qed
  show ?thesis
    using assms insert_new_order_unique insert_multiple_orders_unique add_orders_to_db_unique
      flush_old_orders_unique create_schema_unique insert_new_run_unique
      insert_new_order_duplicate
      insert_multiple_orders_keeps_rows dup
    by (simp add: get_new_orders_only_con)
qed

theorem order_ids_stay_unique_witness:
  "unique_order_ids (con instance_A1) \<and>
   ''A1'' \<in> set (stored_ids (con instance_A1)) \<and>
   insert_new_order env_jan01 ''A1'' ''2024-01-01'' ''2024-01-02'' ''Bob'' 738885 (Some 1)
       instance_A1 = (Inr (), logging ERROR instance_A1) \<and>
   orders_tbl (con (snd (insert_multiple_orders env_jan01 [order_A1, order_A2] (Some 1)
       instance_A1))) = Some [row_A1, row_A2] \<and>
   unique_order_ids (con (snd (insert_multiple_orders env_jan01 [order_A1, order_A2] (Some 1)
       instance_A1)))"
proof -
  have ids: "stored_ids (con instance_A1) = [''A1'']"
    by (simp add: stored_ids_def instance_A1_def store_A1_def row_A1_def)
  have u: "unique_order_ids (con instance_A1)" by (simp add: unique_order_ids_def ids)
  have st: "''A1'' \<in> set (stored_ids (con instance_A1))" by (simp add: ids)
  have k: "order_A1 ''order-id'' = Some ''A1''" "order_A1 ''purchase-date'' \<noteq> None"
    "order_A1 ''payments-date'' \<noteq> None" "order_A1 ''buyer-name'' \<noteq> None"
    by (simp_all add: order_A1_def)
  note t = order_ids_stay_unique[OF u, of env_jan01 "''A1''" "''2024-01-01''" "''2024-01-02''"
      "''Bob''" 738885 "Some 1" "[order_A1, order_A2]"]
  have a: "insert_new_order env_jan01 ''A1'' ''2024-01-01'' ''2024-01-02'' ''Bob'' 738885 (Some 1)
       instance_A1 = (Inr (), logging ERROR instance_A1)"
    using t st by blast
  have "con (snd (insert_multiple_orders env_jan01 ([] @ order_A1 # [order_A2]) (Some 1)
          instance_A1))
        = con (snd (insert_multiple_orders env_jan01 ([] @ [order_A2]) (Some 1) instance_A1))"
    using t k st by blast
  then have b: "orders_tbl (con (snd (insert_multiple_orders env_jan01 [order_A1, order_A2]
       (Some 1) instance_A1))) = Some [row_A1, row_A2]"
    using jan01_insert_A2 by simp
  have c: "unique_order_ids (con (snd (insert_multiple_orders env_jan01 [order_A1, order_A2]
       (Some 1) instance_A1)))"
    using t by blast
  show ?thesis using u st a b c by blast
qed

section \<open>Run tracker\<close>

lemma latest_run_greatest:
  "latest_run runs = Some m \<Longrightarrow> m \<in> set runs \<and> (\<forall>r \<in> set runs. run_time r \<le> run_time m)"
proof (induction runs arbitrary: m)
  case Nil
  then show ?case by simp
next
  case (Cons a runs)
  show ?case
  proof (cases "latest_run runs")
    case None
    then have "runs = []" by (cases runs) (auto split: option.splits if_splits)
    then show ?thesis using Cons.prems None by simp
  next
    case (Some k)
    then have k: "k \<in> set runs" "\<forall>r \<in> set runs. run_time r \<le> run_time k"
      using Cons.IH by auto
    show ?thesis using Cons.prems Some k by (auto split: if_splits)
  qed
qed

lemma latest_run_exists: "runs \<noteq> [] \<Longrightarrow> \<exists>m. latest_run runs = Some m"
  by (cases runs) (auto split: option.splits)

lemma get_current_run_id_stale:
  assumes "\<not> con_closed s" "fails e SelectCurrentRun = None" "program_runs (con s) = Some runs"
    "m \<in> set runs" "\<forall>r \<in> set runs. run_time r \<le> run_time m"
    "date_of (run_time m) \<noteq> date_of (local_now e)"
  shows "get_current_run_id e s = (Inl AssertionError, s)"
proof -
  have "runs \<noteq> []" using assms(4) by auto
  then obtain k where k: "latest_run runs = Some k" using latest_run_exists by blast
  then have "k \<in> set runs" "\<forall>r \<in> set runs. run_time r \<le> run_time k"
    using latest_run_greatest by blast+
  then have "run_time k = run_time m" using assms(4,5) by (meson order_antisym)
  then have "date_of (run_time k) \<noteq> date_of (local_now e)" using assms(6) by simp
  then show ?thesis using assms(1-3) k
    by (simp add: get_current_run_id_def try_except_def with_con_def fetch_def
        sql_select_current_run_def except_operational_def)
qed

lemma insert_new_run_returns: "fst (insert_new_run e wd rt s) = Inr ()"
  by (simp add: insert_new_run_def then_do_def try_except_def split: prod.splits sum.splits)

lemma add_orders_to_db_aborts_at_run_resolution:
  assumes "fst (backup_db e BACKUP_DB_BEFORE_NAME s0) = Inr ()"
    "snd (insert_new_run e (get_today_weekday_int e None) None
            (snd (backup_db e BACKUP_DB_BEFORE_NAME s0))) = s"
    "get_current_run_id e s = (Inl x, s')"
  shows "add_orders_to_db e s0 = (Inl x, s')"
proof -
  obtain s1 where b: "backup_db e BACKUP_DB_BEFORE_NAME s0 = (Inr (), s1)"
    using assms(1) by (cases "backup_db e BACKUP_DB_BEFORE_NAME s0") auto
  have i: "insert_new_run e (get_today_weekday_int e None) None s1 = (Inr (), s)"
    using assms(2) b insert_new_run_returns[of e "get_today_weekday_int e None" None s1]
    by (cases "insert_new_run e (get_today_weekday_int e None) None s1") auto
  show ?thesis by (simp add: add_orders_to_db_def then_do_def b i assms(3))
qed

lemma insert_new_run_failure:
  assumes "fails e InsertRun = Some x"
  shows "insert_new_run e wd rt s = (Inr (), logging CRITICAL s)"
  using assms
  by (simp add: insert_new_run_def then_do_def try_except_def with_con_def execute_def)

lemma instance_A1_init:
  assumes "fails e PragmaForeignKeys = None" "fails e CreateProgramRuns = None"
    "fails e CreateOrders = None"
  shows "OrdersDB_init e files_A1 [order_A2] = (Inr (), instance_A1)"
proof -
  have "OrdersDB_init e files_A1 [order_A2] =
     (Inr (), \<lparr>orders = [order_A2], con = db_file files_A1, con_closed = False,
               logged = [DEBUG, DEBUG, DEBUG],
               db_backup_b4 = b4_file files_A1, db_backup_after = after_file files_A1\<rparr>)"
    by (rule OrdersDB_init_existing[where runs = "[run_1]" and rows = "[row_A1]"])
       (simp_all add: assms files_A1_def store_A1_def)
  then show ?thesis by (simp add: instance_A1_def files_A1_def)
qed

lemma instance_new_init:
  "OrdersDB_init env_late_evening files_new [order_A1] = (Inr (), instance_new)"
  by (simp add: files_new_def OrdersDB_init_def create_schema_def then_do_def try_except_def with_con_def
      execute_def sql_create_program_runs_def sql_create_orders_def logging_def
      env_late_evening_def no_failure_def empty_database_def instance_new_def)

lemma late_evening_run_opened:
  "snd (insert_new_run env_late_evening (get_today_weekday_int env_late_evening None) None
          (snd (backup_db env_late_evening BACKUP_DB_BEFORE_NAME instance_new)))
   = instance_new_run_opened"
  by (simp add: instance_new_run_opened_def insert_new_run_def backup_db_def write_backup_def then_do_def try_except_def
      with_con_def execute_def sql_insert_run_def logging_def get_today_weekday_int_def
      datetime_weekday_def date_of_def day_ms_def current_timestamp_def sqlite_int_def
      env_late_evening_def no_failure_def instance_new_def)

lemma late_evening_backup: "fst (backup_db env_late_evening BACKUP_DB_BEFORE_NAME instance_new) = Inr ()"
  by (simp add: backup_db_def env_late_evening_def no_failure_def instance_new_def)

lemma late_evening_facts:
  "\<not> con_closed instance_new_run_opened"
  "fails env_late_evening SelectCurrentRun = None"
  "program_runs (con instance_new_run_opened) =
     Some [\<lparr>run_id = 1, run_time = 738885 * 86400000 + 84600000, weekday = 2\<rparr>]"
  "date_of (738885 * 86400000 + 84600000) \<noteq> date_of (local_now env_late_evening)"
  by (simp_all add: instance_new_run_opened_def instance_new_def env_late_evening_def
      no_failure_def date_of_def day_ms_def local_now_def)

lemma late_evening_aborts:
  "add_orders_to_db env_late_evening instance_new = (Inl AssertionError, instance_new_run_opened)"
proof -
  let ?m = "\<lparr>run_id = 1, run_time = 738885 * 86400000 + 84600000, weekday = 2\<rparr>"
  have "get_current_run_id env_late_evening instance_new_run_opened =
          (Inl AssertionError, instance_new_run_opened)"
    by (rule get_current_run_id_stale[OF late_evening_facts(1,2,3), of ?m])
       (use late_evening_facts(4) in simp_all)
  then show ?thesis
    by (rule add_orders_to_db_aborts_at_run_resolution[OF late_evening_backup
          late_evening_run_opened])
qed

lemma run_insert_fails_result:
  "add_orders_to_db env_run_insert_fails instance_A1 =
     (Inr (), instance_A1\<lparr>con := \<lparr>program_runs = Some [run_1], sqlite_sequence = 1,
                                    orders_tbl = Some [row_A1, row_A2]\<rparr>,
                           con_closed := True,
                           logged := [DEBUG, DEBUG, DEBUG, INFO, CRITICAL, DEBUG, DEBUG, DEBUG,
                                      INFO, DEBUG, INFO, INFO],
                           db_backup_b4 := Some store_A1,
                           db_backup_after := Some \<lparr>program_runs = Some [run_1],
                                    sqlite_sequence = 1, orders_tbl = Some [row_A1, row_A2]\<rparr>\<rparr>)"
  by (simp add: add_orders_to_db_def insert_new_run_def backup_db_def write_backup_def
      then_do_def try_except_def with_con_def execute_def fetch_def sql_insert_run_def
      logging_def get_today_weekday_int_def get_current_run_id_def sql_select_current_run_def
      insert_multiple_orders_def insert_new_order_def sql_insert_order_def
      flush_old_orders_def get_old_runs_ids_def sql_select_old_runs_def age_days_def
      cast_integer_days_def local_now_def con_close_def except_operational_def
      ORDERS_ARCHIVE_DAYS_def
      datetime_weekday_def date_of_def day_ms_def current_timestamp_def sqlite_int_def
      env_run_insert_fails_def env_jan01_def no_failure_def instance_A1_def store_A1_def
      run_1_def row_A1_def row_A2_def order_A2_def)

lemma west_monday_run_opened:
  "con (snd (insert_new_run env_west_monday (get_today_weekday_int env_west_monday None) None
               instance_new)) = store_west"
  by (simp add: insert_new_run_def then_do_def try_except_def with_con_def execute_def
      sql_insert_run_def logging_def get_today_weekday_int_def datetime_weekday_def date_of_def
      day_ms_def current_timestamp_def sqlite_int_def env_west_monday_def no_failure_def
      instance_new_def store_west_def run_west_def)

lemma west_tuesday_dates:
  "date_of (local_now env_west_monday) = 738885" "date_of (utc_now env_west_monday) = 738886"
  "date_of (run_time run_west) = 738886"
  "date_of (local_now env_west_tuesday) = 738886" "date_of (utc_now env_west_tuesday) = 738887"
  by (simp_all add: date_of_def day_ms_def local_now_def env_west_monday_def
      env_west_tuesday_def run_west_def)

lemma west_tuesday_run_id:
  "get_current_run_id env_west_tuesday instance_west =
     (Inr (Some 1), logging DEBUG instance_west)"
  by (simp add: get_current_run_id_def try_except_def with_con_def fetch_def
      sql_select_current_run_def date_of_def day_ms_def local_now_def
      env_west_tuesday_def no_failure_def instance_west_def store_west_def run_west_def)

lemma west_tuesday_ingestion:
  "fst (add_orders_to_db env_west_tuesday_run_fails instance_west) = Inr ()"
  "program_runs (con (snd (add_orders_to_db env_west_tuesday_run_fails instance_west)))
     = Some [run_west]"
  "orders_tbl (con (snd (add_orders_to_db env_west_tuesday_run_fails instance_west)))
     = Some [row_A1_west]"
  by (simp_all add: add_orders_to_db_def insert_new_run_def backup_db_def write_backup_def
      then_do_def try_except_def with_con_def execute_def fetch_def sql_insert_run_def
      logging_def get_today_weekday_int_def get_current_run_id_def sql_select_current_run_def
      insert_multiple_orders_def insert_new_order_def sql_insert_order_def
      flush_old_orders_def get_old_runs_ids_def sql_select_old_runs_def age_days_def
      cast_integer_days_def local_now_def con_close_def except_operational_def
      ORDERS_ARCHIVE_DAYS_def
      datetime_weekday_def date_of_def day_ms_def current_timestamp_def sqlite_int_def
      env_west_tuesday_run_fails_def env_west_tuesday_def no_failure_def instance_west_def
      store_west_def run_west_def row_A1_west_def order_A1_def)

text \<open>
  Claim C5 asks that a most recent run dated on another day than the day of the call makes
  \<open>_get_current_run_id\<close> raise. The method compares the date of the stored stamp, which
  \<open>CURRENT_TIMESTAMP\<close> writes in UTC, with the local date. Five hours behind UTC, run 1 is
  opened on Monday at 20:00 and stamped Tuesday 01:00. Called on Tuesday at 20:00, which is
  Wednesday 01:00 UTC, the method returns 1 and does not raise, although the run was made
  on another day by the local calendar and by the UTC calendar alike; an ingestion of that
  evening whose own run insert fails files its batch under run 1.
\<close>

theorem get_current_run_id_returns_run_of_another_day:
  "con (snd (insert_new_run env_west_monday (get_today_weekday_int env_west_monday None) None
               instance_new)) = store_west \<and>
   date_of (local_now env_west_monday) = 738885 \<and>
   date_of (local_now env_west_tuesday) = 738886 \<and>
   date_of (utc_now env_west_monday) = 738886 \<and>
   date_of (utc_now env_west_tuesday) = 738887 \<and>
   get_current_run_id env_west_tuesday instance_west =
     (Inr (Some 1), logging DEBUG instance_west) \<and>
   fst (add_orders_to_db env_west_tuesday_run_fails instance_west) = Inr () \<and>
   program_runs (con (snd (add_orders_to_db env_west_tuesday_run_fails instance_west)))
     = Some [run_west] \<and>
   orders_tbl (con (snd (add_orders_to_db env_west_tuesday_run_fails instance_west)))
     = Some [row_A1_west]"
  using west_monday_run_opened west_tuesday_dates west_tuesday_run_id west_tuesday_ingestion
  by simp

text \<open>
  Claim C6 says that a failed run insert propagates and stops the ingestion. It does not:
  with an INSERT into \<open>program_runs\<close> that fails, \<open>_insert_new_run\<close> returns normally, and
  \<open>add_orders_to_db\<close> goes on, files order A2 under the run of the same day that was
  already there, and returns normally.
\<close>

theorem insert_new_run_failure_propagates_counterexample:
  "OrdersDB_init env_run_insert_fails files_A1 [order_A2] = (Inr (), instance_A1) \<and>
   fails env_run_insert_fails InsertRun = Some OperationalError \<and>
   insert_new_run env_run_insert_fails (get_today_weekday_int env_run_insert_fails None) None
       instance_A1 = (Inr (), logging CRITICAL instance_A1) \<and>
   fst (add_orders_to_db env_run_insert_fails instance_A1) = Inr () \<and>
   program_runs (con (snd (add_orders_to_db env_run_insert_fails instance_A1))) = Some [run_1] \<and>
   orders_tbl (con (snd (add_orders_to_db env_run_insert_fails instance_A1))) =
     Some [row_A1, row_A2]"
proof -
  have f: "fails env_run_insert_fails InsertRun = Some OperationalError"
    by (simp add: env_run_insert_fails_def)
  have i: "OrdersDB_init env_run_insert_fails files_A1 [order_A2] = (Inr (), instance_A1)"
    by (rule instance_A1_init) (simp_all add: env_run_insert_fails_def no_failure_def)
  show ?thesis
    using f i insert_new_run_failure[OF f] by (simp add: run_insert_fails_result)
qed

text \<open>
  Claim C6, amended. A failure to insert the new run row is logged at CRITICAL and is not
  propagated: \<open>_insert_new_run\<close> returns normally with the store unchanged, and
  \<open>add_orders_to_db\<close> continues with current-run resolution and, when that returns, with
  the insertion of the orders, the flush and the second backup.
\<close>

theorem insert_new_run_failure_is_swallowed:
  assumes "fails e InsertRun = Some x"
  shows "insert_new_run e wd run_time_default s = (Inr (), logging CRITICAL s) \<and>
         (fst (backup_db e BACKUP_DB_BEFORE_NAME s) = Inr () \<longrightarrow>
          add_orders_to_db e s =
            then_do (get_current_run_id e
                       (logging CRITICAL (snd (backup_db e BACKUP_DB_BEFORE_NAME s))))
              (\<lambda>new_run_id s3.
            then_do (insert_multiple_orders e (orders s3) new_run_id s3) (\<lambda>_ s4.
            then_do (flush_old_orders e ORDERS_ARCHIVE_DAYS s4) (\<lambda>_ s5.
            then_do (backup_db e BACKUP_DB_AFTER_NAME s5) (\<lambda>_ s6.
              (Inr (), con_close s6))))))"
proof (intro conjI impI)
  show "insert_new_run e wd run_time_default s = (Inr (), logging CRITICAL s)"
    using assms by (rule insert_new_run_failure)
next
  assume "fst (backup_db e BACKUP_DB_BEFORE_NAME s) = Inr ()"
  then obtain s1 where b: "backup_db e BACKUP_DB_BEFORE_NAME s = (Inr (), s1)"
    by (cases "backup_db e BACKUP_DB_BEFORE_NAME s") auto
  show "add_orders_to_db e s =
            then_do (get_current_run_id e
                       (logging CRITICAL (snd (backup_db e BACKUP_DB_BEFORE_NAME s))))
              (\<lambda>new_run_id s3.
            then_do (insert_multiple_orders e (orders s3) new_run_id s3) (\<lambda>_ s4.
            then_do (flush_old_orders e ORDERS_ARCHIVE_DAYS s4) (\<lambda>_ s5.
            then_do (backup_db e BACKUP_DB_AFTER_NAME s5) (\<lambda>_ s6.
              (Inr (), con_close s6)))))"
    unfolding add_orders_to_db_def b
    by (simp add: then_do_def[of "(Inr (), s1)"] insert_new_run_failure[OF assms]
        then_do_def[of "(Inr (), logging CRITICAL s1)"])
qed

theorem insert_new_run_failure_is_swallowed_witness:
  "fails env_run_insert_fails InsertRun = Some OperationalError \<and>
   insert_new_run env_run_insert_fails 1 None instance_A1 = (Inr (), logging CRITICAL instance_A1)"
proof -
  have f: "fails env_run_insert_fails InsertRun = Some OperationalError"
    by (simp add: env_run_insert_fails_def)
  show ?thesis
    using insert_new_run_failure_is_swallowed[OF f, of 1 None instance_A1] f by simp
qed

section \<open>Retention manager\<close>




lemma get_old_runs_ids_select:
  assumes "\<not> con_closed s" "fails e SelectOldRuns = None" "program_runs (con s) = Some runs"
    "sqlite_int n"
  shows "get_old_runs_ids e n s =
    (Inr (Some (map run_id (filter (\<lambda>r. n < age_days e r) runs))), logging DEBUG s)"
  using assms
  by (simp add: get_old_runs_ids_def try_except_def then_do_def with_con_def fetch_def
      sql_select_old_runs_def)

lemma get_old_runs_ids_overflow:
  assumes "\<not> con_closed s" "\<not> sqlite_int n"
  shows "get_old_runs_ids e n s = (Inl OverflowError, s)"
  using assms
  by (simp add: get_old_runs_ids_def try_except_def then_do_def with_con_def fetch_def
      except_operational_def)

lemma flush_old_orders_overflow:
  assumes "\<not> con_closed s" "\<not> sqlite_int n"
  shows "flush_old_orders e n s = (Inl OverflowError, s)"
  by (simp add: flush_old_orders_def get_old_runs_ids_overflow[OF assms] then_do_def)


lemma delete_each_frame:
  "(snd (delete_each e ids s))\<lparr>con := c\<rparr> = s\<lparr>con := c\<rparr>"
proof (induction ids arbitrary: s)
  case Nil
  then show ?case by simp
next
  case (Cons r ids)
  show ?case
  proof (cases "execute e (DeleteRun r) [r] (sql_delete_run r) s")
    case (Pair res s1)
    have fr: "s1\<lparr>con := c\<rparr> = s\<lparr>con := c\<rparr>"
      using Pair by (auto simp: execute_def split: if_splits option.splits sum.splits)
    show ?thesis
    proof (cases res)
      case (Inl x)
      then show ?thesis using Pair fr by (simp add: then_do_def)
    next
      case (Inr u)
      then show ?thesis using Pair fr Cons.IH[of s1] by (simp add: then_do_def)
    qed
  qed
qed

lemma delete_each_fails:
  assumes "r \<in> set ids" "fails e (DeleteRun r) = Some x" "\<not> con_closed s"
  shows "\<exists>y. fst (delete_each e ids s) = Inl y"
  using assms
proof (induction ids arbitrary: s)
  case Nil
  then show ?case by simp
next
  case (Cons a ids)
  show ?case
  proof (cases "execute e (DeleteRun a) [a] (sql_delete_run a) s")
    case (Pair res s1)
    show ?thesis
    proof (cases res)
      case (Inl y)
      then show ?thesis using Pair by (simp add: then_do_def)
    next
      case (Inr u)
      have ne: "a \<noteq> r"
        using Pair Inr Cons.prems by (auto simp: execute_def split: if_splits option.splits)
      have op: "\<not> con_closed s1"
        using Pair Inr Cons.prems by (auto simp: execute_def split: if_splits option.splits sum.splits)
      have "\<exists>y. fst (delete_each e ids s1) = Inl y"
        using Cons.IH[OF _ Cons.prems(2) op] Cons.prems(1) ne by simp
      then show ?thesis using Pair Inr by (simp add: then_do_def)
    qed
  qed
qed

lemma flush_old_orders_rolls_back:
  assumes "\<not> con_closed s" "fails e SelectOldRuns = None" "program_runs (con s) = Some runs"
    "r \<in> set (map run_id (filter (\<lambda>r. n < age_days e r) runs))"
    "fails e (DeleteRun r) = Some x" "sqlite_int n"
  shows "flush_old_orders e n s = (Inr (), logging ERROR (logging DEBUG s))"
proof -
  let ?ids = "map run_id (filter (\<lambda>r. n < age_days e r) runs)"
  let ?s1 = "logging DEBUG s"
  have q: "get_old_runs_ids e n s = (Inr (Some ?ids), ?s1)"
    by (rule get_old_runs_ids_select[OF assms(1-3) assms(6)])
  have op: "\<not> con_closed ?s1" using assms(1) by (simp add: logging_def)
  obtain y where y: "fst (delete_each e ?ids ?s1) = Inl y"
    using delete_each_fails[OF assms(4,5) op] by blast
  have fr: "(snd (delete_each e ?ids ?s1))\<lparr>con := con ?s1\<rparr> = ?s1"
    using delete_each_frame[where e = e and ids = ?ids and s = ?s1 and c = "con ?s1"] by simp
  have w: "with_con (delete_each e ?ids) ?s1 = (Inl y, ?s1)"
    using y fr by (cases "delete_each e ?ids ?s1") (simp add: with_con_def)
  show ?thesis
    by (simp add: flush_old_orders_def q then_do_def try_except_def w)
qed



lemma instance_aged_init:
  assumes "fails e PragmaForeignKeys = None" "fails e CreateProgramRuns = None"
    "fails e CreateOrders = None"
  shows "OrdersDB_init e files_aged [] = (Inr (), instance_aged)"
proof -
  have "OrdersDB_init e files_aged [] =
     (Inr (), \<lparr>orders = [], con = db_file files_aged, con_closed = False,
               logged = [DEBUG, DEBUG, DEBUG],
               db_backup_b4 = b4_file files_aged, db_backup_after = after_file files_aged\<rparr>)"
    by (rule OrdersDB_init_existing[where runs = "[run_aged_30, run_aged_20, run_aged_15,
           run_aged_14_23h, run_aged_14, run_aged_5]" and rows = "[]"])
       (simp_all add: assms files_aged_def store_aged_def)
  then show ?thesis by (simp add: instance_aged_def files_aged_def)
qed

lemma ages_jan01:
  "age_days env_jan01 run_aged_30 = 30" "age_days env_jan01 run_aged_20 = 20"
  "age_days env_jan01 run_aged_15 = 15" "age_days env_jan01 run_aged_14_23h = 14"
  "age_days env_jan01 run_aged_14 = 14" "age_days env_jan01 run_aged_5 = 5"
  by (simp_all add: age_days_def cast_integer_days_def local_now_def env_jan01_def day_ms_def
      run_aged_30_def run_aged_20_def run_aged_15_def run_aged_14_23h_def run_aged_14_def
      run_aged_5_def)

lemma ages_delete_2_fails: "age_days env_delete_2_fails r = age_days env_jan01 r"
  by (simp add: age_days_def local_now_def env_delete_2_fails_def)








text \<open>
  Claim C4 says that a failed deletion of one stale run leaves the deletion of the others
  in place. It does not: runs 1, 2 and 3 are stale, the DELETE of run 2 fails, and after the
  flush runs 1 and 3 are still stored, although their own DELETE cannot fail.
\<close>

theorem flush_old_orders_one_failure_keeps_all_counterexample:
  "OrdersDB_init env_delete_2_fails files_aged [] = (Inr (), instance_aged) \<and>
   fst (get_old_runs_ids env_delete_2_fails 14 instance_aged) = Inr (Some [1, 2, 3]) \<and>
   fails env_delete_2_fails (DeleteRun 1) = None \<and>
   fails env_delete_2_fails (DeleteRun 2) = Some OperationalError \<and>
   fails env_delete_2_fails (DeleteRun 3) = None \<and>
   fst (flush_old_orders env_delete_2_fails 14 instance_aged) = Inr () \<and>
   program_runs (con (snd (flush_old_orders env_delete_2_fails 14 instance_aged))) =
     Some [run_aged_30, run_aged_20, run_aged_15, run_aged_14_23h, run_aged_14, run_aged_5]"
proof -
  have h1: "\<not> con_closed instance_aged" by (simp add: instance_aged_def)
  have h2: "fails env_delete_2_fails SelectOldRuns = None"
    by (simp add: env_delete_2_fails_def no_failure_def)
  have h3: "program_runs (con instance_aged) = Some [run_aged_30, run_aged_20, run_aged_15,
              run_aged_14_23h, run_aged_14, run_aged_5]"
    by (simp add: instance_aged_def store_aged_def)
  have ids: "run_id run_aged_30 = 1" "run_id run_aged_20 = 2" "run_id run_aged_15 = 3"
    by (simp_all add: run_aged_30_def run_aged_20_def run_aged_15_def)
  have f: "fails env_delete_2_fails (DeleteRun 2) = Some OperationalError"
    "fails env_delete_2_fails (DeleteRun 1) = None" "fails env_delete_2_fails (DeleteRun 3) = None"
    by (simp_all add: env_delete_2_fails_def no_failure_def)
  have q: "get_old_runs_ids env_delete_2_fails 14 instance_aged =
           (Inr (Some [1, 2, 3]), logging DEBUG instance_aged)"
    using get_old_runs_ids_select[OF h1 h2 h3, of 14]
    by (simp add: ages_delete_2_fails ages_jan01 ids sqlite_int_def)
  have m: "2 \<in> set (map run_id (filter (\<lambda>r. 14 < age_days env_delete_2_fails r)
             [run_aged_30, run_aged_20, run_aged_15, run_aged_14_23h, run_aged_14, run_aged_5]))"
    by (simp add: ages_delete_2_fails ages_jan01 ids)
  have r: "flush_old_orders env_delete_2_fails 14 instance_aged =
           (Inr (), logging ERROR (logging DEBUG instance_aged))"
    by (rule flush_old_orders_rolls_back[OF h1 h2 h3 m f(1)]) (simp add: sqlite_int_def)
  have i: "OrdersDB_init env_delete_2_fails files_aged [] = (Inr (), instance_aged)"
    by (rule instance_aged_init) (simp_all add: env_delete_2_fails_def no_failure_def)
  show ?thesis using i q r f h3 by (simp add: logging_simps)
qed

text \<open>
  Claim C4, amended. The stale runs are deleted one after another inside one transaction
  and one \<open>try\<close> block. When the deletion of a stale run fails, the runs after it are not
  attempted, the deletions before it are rolled back, the failure is logged at ERROR and the
  flush returns normally: the store is as it was before the call. (An \<open>archive_days\<close> that
  SQLite cannot bind never gets that far: the query for the stale runs raises
  \<open>OverflowError\<close>.)
\<close>

theorem flush_old_orders_all_or_nothing:
  assumes "\<not> con_closed s" "fails e SelectOldRuns = None" "program_runs (con s) = Some runs"
    "r \<in> set (map run_id (filter (\<lambda>r. n < age_days e r) runs))"
    "fails e (DeleteRun r) = Some x"
  shows "flush_old_orders e n s =
           (if sqlite_int n then (Inr (), logging ERROR (logging DEBUG s))
            else (Inl OverflowError, s))"
proof (cases "sqlite_int n")
  case True
  then show ?thesis using flush_old_orders_rolls_back[OF assms True] by simp
next
  case False
  then show ?thesis using flush_old_orders_overflow[OF assms(1) False] by simp
qed

theorem flush_old_orders_all_or_nothing_witness:
  "flush_old_orders env_delete_2_fails 14 instance_aged =
     (Inr (), logging ERROR (logging DEBUG instance_aged))"
proof -
  have h1: "\<not> con_closed instance_aged" by (simp add: instance_aged_def)
  have h2: "fails env_delete_2_fails SelectOldRuns = None"
    by (simp add: env_delete_2_fails_def no_failure_def)
  have h3: "program_runs (con instance_aged) = Some [run_aged_30, run_aged_20, run_aged_15,
              run_aged_14_23h, run_aged_14, run_aged_5]"
    by (simp add: instance_aged_def store_aged_def)
  have ids: "run_id run_aged_30 = 1" "run_id run_aged_20 = 2" "run_id run_aged_15 = 3"
    by (simp_all add: run_aged_30_def run_aged_20_def run_aged_15_def)
  have f: "fails env_delete_2_fails (DeleteRun 2) = Some OperationalError"
    by (simp add: env_delete_2_fails_def no_failure_def)
  have m: "2 \<in> set (map run_id (filter (\<lambda>r. 14 < age_days env_delete_2_fails r)
             [run_aged_30, run_aged_20, run_aged_15, run_aged_14_23h, run_aged_14, run_aged_5]))"
    by (simp add: ages_delete_2_fails ages_jan01 ids)
  show ?thesis
    using flush_old_orders_all_or_nothing[OF h1 h2 h3 m f] by (simp add: sqlite_int_def)
qed

section \<open>Run ingestion\<close>

lemma then_do_closes:
  assumes "\<not> con_closed (snd m)"
    "\<And>v s. \<not> con_closed s \<Longrightarrow> con_closed (snd (f v s)) = (fst (f v s) = Inr ())"
  shows "con_closed (snd (then_do m f)) = (fst (then_do m f) = Inr ())"
  using assms by (cases m) (auto simp: then_do_def split: sum.splits)

lemma add_orders_to_db_closes_iff:
  assumes "\<not> con_closed s"
  shows "con_closed (snd (add_orders_to_db e s)) = (fst (add_orders_to_db e s) = Inr ())"
  unfolding add_orders_to_db_def
  apply (rule then_do_closes)
   apply (simp add: backup_db_closed assms)
  apply (rule then_do_closes)
   apply (simp add: insert_new_run_closed)
  apply (rule then_do_closes)
   apply (simp add: get_current_run_id_closed)
  apply (rule then_do_closes)
   apply (simp add: insert_multiple_orders_closed)
  apply (rule then_do_closes)
   apply (simp add: flush_old_orders_closed)
  apply (rule then_do_closes)
   apply (simp add: backup_db_closed)
  apply (simp add: con_close_def)
  done

lemma jan01_ingestion_returns: "fst (add_orders_to_db env_jan01 instance_A1) = Inr ()"
  by (simp add: add_orders_to_db_def insert_new_run_def backup_db_def write_backup_def
      then_do_def try_except_def with_con_def execute_def fetch_def sql_insert_run_def
      logging_def get_today_weekday_int_def get_current_run_id_def sql_select_current_run_def
      insert_multiple_orders_def insert_new_order_def sql_insert_order_def
      flush_old_orders_def get_old_runs_ids_def sql_select_old_runs_def age_days_def
      cast_integer_days_def local_now_def con_close_def except_operational_def
      ORDERS_ARCHIVE_DAYS_def
      datetime_weekday_def date_of_def day_ms_def current_timestamp_def sqlite_int_def
      env_jan01_def no_failure_def instance_A1_def store_A1_def
      run_1_def row_A1_def order_A2_def)

text \<open>
  Claim C7 says that \<open>add_orders_to_db\<close> closes the connection on every exit path. It
  does not: on a new store, at 23:30 UTC with a local clock one hour ahead, the new run is
  stamped with the UTC date, run resolution raises \<open>AssertionError\<close>, and the method ends
  with the connection open.
\<close>

theorem add_orders_to_db_leaves_connection_open_counterexample:
  "OrdersDB_init env_late_evening files_new [order_A1] = (Inr (), instance_new) \<and>
   fst (add_orders_to_db env_late_evening instance_new) = Inl AssertionError \<and>
   \<not> con_closed (snd (add_orders_to_db env_late_evening instance_new))"
  using instance_new_init late_evening_aborts late_evening_facts(1) by simp

text \<open>
  Claim C7, amended. Called on an open connection, \<open>add_orders_to_db\<close> closes it exactly
  when all its steps return; when a step raises, the exception leaves the method and the
  connection stays open.
\<close>

theorem add_orders_to_db_closes_on_success_only:
  assumes "\<not> con_closed s"
  shows "con_closed (snd (add_orders_to_db e s)) = (fst (add_orders_to_db e s) = Inr ())"
  using assms by (rule add_orders_to_db_closes_iff)

theorem add_orders_to_db_closes_on_success_only_witness:
  "\<not> con_closed instance_A1 \<and> fst (add_orders_to_db env_jan01 instance_A1) = Inr () \<and>
   con_closed (snd (add_orders_to_db env_jan01 instance_A1))"
proof -
  have h: "\<not> con_closed instance_A1" by (simp add: instance_A1_def)
  show ?thesis
    using add_orders_to_db_closes_on_success_only[OF h, of env_jan01] h jan01_ingestion_returns
    by simp
qed

end
